theory Spec2Isabelle
  imports Main "HOL-Library.Word"
begin

section \<open>GPU memory manager (src/caffe/util/gpu_memory.cpp)\<close>

subsection \<open>Data model\<close>

text \<open>
  \<open>size_t\<close> is a 64-bit unsigned integer, so \<open>+\<close> and \<open>-\<close> wrap around.
  A \<open>void*\<close> is modelled by its address; \<open>nullptr\<close> is address 0.
  A device ordinal is a C \<open>int\<close>.
\<close>

type_synonym size_t = "64 word"
type_synonym ptr = "64 word"

text \<open>
  Every \<open>CHECK\<close>, \<open>CUDA_CHECK\<close> and \<open>LOG(FATAL)\<close> aborts the process: \<open>Fatal\<close>.
  An out-of-range vector access or a null dereference is undefined behaviour: \<open>UB\<close>.
\<close>

datatype error = Fatal | UB

datatype cudaError =
  cudaSuccess | cudaErrorMemoryAllocation | cudaErrorCudartUnloading | cudaErrorOther

text \<open>The two ways of holding \<open>GPUMemory::read_write_mutex()\<close>:
  \<open>shared_lock<shared_mutex>\<close> is \<open>Shared\<close>, an exclusive lock would be \<open>Exclusive\<close>.\<close>

datatype lock_mode = Shared | Exclusive

text \<open>The handle \<open>cub_allocator_\<close> remembers the arguments of the constructor
  \<open>cub::CachingDeviceAllocator(bin_growth, min_bin, max_bin, max_cached_bytes, skip_cleanup, debug)\<close>.\<close>

datatype cub = CachingDeviceAllocator "32 word" "32 word" "32 word" size_t bool bool

text \<open>
  The calls made to the collaborators (the CUDA runtime, the cub allocator, the
  reader/writer mutex), in the order the code makes them, with the values they returned.
\<close>

datatype event =
    Lock lock_mode
  | CubNew bool bool
  | CubRelease
  | DeviceAllocate int size_t cudaError size_t
  | DeviceFree int ptr cudaError size_t
  | MemGetInfo int
  | GetDevice
  | GetLastError cudaError
  | HostAlloc size_t ptr
  | HostGetDevicePointer ptr ptr
  | FreeHost ptr

text \<open>
  The C++ members end in an underscore (\<open>free_\<close>, \<open>dev_info_\<close>, ...); the record
  fields carry the same names without it.

  Modelled from the spec: \<open>struct DevInfo\<close> and the members of \<open>Manager\<close> are declared in
  \<open>gpu_memory.hpp\<close>. A device info is a free byte count, a total byte count and a flush
  counter, all zero when constructed; \<open>free_\<close> and \<open>total_\<close> are the \<open>size_t\<close> that
  \<open>cudaMemGetInfo\<close> writes, the thresholds are byte counts.
\<close>

record DevInfo =
  free :: size_t
  total :: size_t
  flush_count :: "32 word"

record Manager =
  debug :: bool
  initialized :: bool
  cub_allocator :: "cub option"
  dev_info :: "DevInfo list"
  update_thresholds :: "size_t list"
  pinned_host_buffers :: "ptr list list"
  pinned_device_buffers :: "ptr list list"
  pinned_buffer_sizes :: "size_t list list"

text \<open>
  The process-wide state: the singleton \<open>GPUMemory::mgr_\<close>, the trace of collaborator
  calls made so far, and whether the function-local \<open>static Scope gpu_memory_scope\<close> of
  \<open>lazy_init\<close> has been constructed.
\<close>

record world =
  mgr :: Manager
  calls :: "event list"
  lazy_scope :: bool

definition emit :: "event list \<Rightarrow> world \<Rightarrow> world" where
  "emit evs w = w\<lparr>calls := calls w @ evs\<rparr>"

definition BIN_GROWTH :: "32 word" where "BIN_GROWTH = 2"
definition MIN_BIN :: "32 word" where "MIN_BIN = 6"
definition MAX_BIN :: "32 word" where "MAX_BIN = 22"
definition MAX_CACHED_BYTES :: size_t where "MAX_CACHED_BYTES = - 1"
definition INITIAL_PINNED_BYTES :: size_t where "INITIAL_PINNED_BYTES = 64"

text \<open>\<open>GPUMemory::INVALID_DEVICE\<close> is \<open>cub::CachingDeviceAllocator::INVALID_DEVICE_ORDINAL\<close>,
  which the cub header declares as \<open>-1\<close>.\<close>

definition INVALID_DEVICE :: int where "INVALID_DEVICE = - 1"

text \<open>\<open>std::vector::resize(n)\<close> with value-initialised new elements.\<close>

definition resize :: "nat \<Rightarrow> 'a \<Rightarrow> 'a list \<Rightarrow> 'a list" where
  "resize n d xs = take n xs @ replicate (n - length xs) d"

definition DevInfo0 :: DevInfo where
  "DevInfo0 = \<lparr>free = 0, total = 0, flush_count = 0\<rparr>"

text \<open>\<open>Manager::Manager()\<close>: every table gets one entry per device the driver counts.\<close>

definition Manager_ctor :: "nat \<Rightarrow> Manager" where
  "Manager_ctor count =
     \<lparr>debug = False, initialized = False, cub_allocator = None,
      dev_info = replicate count DevInfo0,
      update_thresholds = replicate count 0,
      pinned_host_buffers = replicate count [],
      pinned_device_buffers = replicate count [],
      pinned_buffer_sizes = replicate count []\<rparr>"

subsection \<open>Device info tracker\<close>

text \<open>What the driver answers inside \<open>update_dev_info\<close>: \<open>props.totalGlobalMem\<close> and the
  two outputs of \<open>cudaMemGetInfo\<close>.\<close>

record mem_reply =
  totalGlobalMem :: size_t
  mem_free :: size_t
  mem_total :: size_t

text \<open>
  \<open>update_dev_info(device)\<close>. \<open>drv device\<close> is the driver's answer for the device, \<open>None\<close>
  when one of the \<open>CUDA_CHECK\<close>s fails. A negative ordinal never returns: \<open>-1\<close> is
  rejected by \<open>cudaSetDevice\<close>, anything lower makes \<open>device + 1\<close> a huge unsigned
  value and \<open>resize\<close> throws.
\<close>

definition update_dev_info :: "(int \<Rightarrow> mem_reply option) \<Rightarrow> int \<Rightarrow> world \<Rightarrow> error + world" where
  "update_dev_info drv device w =
     (if device < 0 then Inl Fatal
      else
        let m = mgr w;
            d = nat device;
            di = (if d + 1 > length (dev_info m) then resize (d + 1) DevInfo0 (dev_info m)
                  else dev_info m)
        in case drv device of
             None \<Rightarrow> Inl Fatal
           | Some r \<Rightarrow>
               let t = min (totalGlobalMem r) (mem_total r);
                   f = min t (mem_free r)
               in Inr (emit [MemGetInfo device]
                        (w\<lparr>mgr := m\<lparr>dev_info := di[d := (di ! d)\<lparr>free := f, total := t\<rparr>]\<rparr>\<rparr>)))"

subsection \<open>Allocator manager: reset, destructor, deallocate\<close>

definition reset :: "world \<Rightarrow> world" where
  "reset w =
     (if \<not> initialized (mgr w) then w
      else emit [CubRelease] (w\<lparr>mgr := (mgr w)\<lparr>cub_allocator := None, initialized := False\<rparr>\<rparr>))"

text \<open>\<open>Manager::~Manager()\<close> calls \<open>cudaFreeHost\<close> on every entry of \<open>pinned_host_buffers_\<close>.\<close>

definition Manager_dtor :: "world \<Rightarrow> world" where
  "Manager_dtor w = emit (map FreeHost (concat (pinned_host_buffers (mgr w)))) w"

text \<open>
  \<open>deallocate(ptr, device)\<close>. \<open>get_device_status\<close> is what \<open>cudaGetDevice\<close> returns,
  \<open>free_reply\<close> the status and the \<open>size_deallocated\<close> of \<open>DeviceFree\<close>.
\<close>

definition deallocate :: "cudaError \<Rightarrow> cudaError \<times> size_t \<Rightarrow> ptr \<Rightarrow> int \<Rightarrow> world \<Rightarrow> error + world" where
  "deallocate get_device_status free_reply p device w =
     (if p = 0 \<or> cub_allocator (mgr w) = None then Inr w
      else
        let w1 = emit [GetDevice] w in
        if get_device_status \<noteq> cudaErrorCudartUnloading then
          let size_deallocated = snd free_reply;
              w2 = emit [Lock Shared, DeviceFree device p (fst free_reply) size_deallocated] w1
          in if fst free_reply \<noteq> cudaSuccess then Inl Fatal
             else if size_deallocated > 0 then
               (if 0 \<le> device \<and> nat device < length (dev_info (mgr w2)) then
                  let di = dev_info (mgr w2); d = nat device
                  in Inr (w2\<lparr>mgr := (mgr w2)\<lparr>dev_info :=
                            di[d := (di ! d)\<lparr>free := free (di ! d) + size_deallocated\<rparr>]\<rparr>\<rparr>)
                else Inl UB)
             else Inr w2
        else Inr w1)"


subsection \<open>Allocator manager: GetInfo\<close>

text \<open>
  \<open>GetInfo(free_mem, total_mem, with_update)\<close>. \<open>get_device\<close> is the ordinal
  \<open>cudaGetDevice\<close> stores, \<open>None\<close> when its \<open>CUDA_CHECK\<close> fails;
  \<open>cached_free d\<close> is \<open>cub_allocator_->cached_bytes[d].free\<close>.
  The result is \<open>(*free_mem, *total_mem)\<close> and the new state.
\<close>

definition GetInfo ::
  "int option \<Rightarrow> (int \<Rightarrow> mem_reply option) \<Rightarrow> (int \<Rightarrow> size_t) \<Rightarrow> bool \<Rightarrow> world
     \<Rightarrow> error + (size_t \<times> size_t \<times> world)" where
  "GetInfo get_device drv cached_free with_update w =
     (if cub_allocator (mgr w) = None then Inl Fatal
      else case get_device of
        None \<Rightarrow> Inl Fatal
      | Some cur_device \<Rightarrow>
          (case (if with_update then update_dev_info drv cur_device (emit [GetDevice] w)
                 else Inr (emit [GetDevice] w)) of
             Inl e \<Rightarrow> Inl e
           | Inr w1 \<Rightarrow>
               if 0 \<le> cur_device \<and> nat cur_device < length (dev_info (mgr w1)) then
                 let di = dev_info (mgr w1) ! nat cur_device;
                     total_mem = total di;
                     free_mem = free di + cached_free cur_device
                 in Inr (if free_mem > total_mem then total_mem else free_mem, total_mem, w1)
               else Inl UB))"

subsection \<open>Allocator manager: init\<close>

text \<open>
  \<open>report_dev_info(device)\<close> only builds a log line; what is kept of it is the shared
  lock it takes, its two \<open>CUDA_CHECK\<close>s and its read of \<open>dev_info_[device]\<close>.
\<close>

definition report_dev_info :: "(int \<Rightarrow> mem_reply option) \<Rightarrow> int \<Rightarrow> world \<Rightarrow> error + world" where
  "report_dev_info drv device w =
     (case drv device of
        None \<Rightarrow> Inl Fatal
      | Some r \<Rightarrow>
          if 0 \<le> device \<and> nat device < length (dev_info (mgr w)) then Inr (emit [Lock Shared] w)
          else Inl UB)"

text \<open>The first loop of \<open>init\<close>: refresh each listed device, then set its threshold to its
  total. \<open>update_thresholds_\<close> is not grown by \<open>update_dev_info\<close>.\<close>

fun init_devices :: "(int \<Rightarrow> mem_reply option) \<Rightarrow> int list \<Rightarrow> world \<Rightarrow> error + world" where
  "init_devices drv [] w = Inr w"
| "init_devices drv (g # gs) w =
     (case update_dev_info drv g w of
        Inl e \<Rightarrow> Inl e
      | Inr w1 \<Rightarrow>
          if nat g < length (update_thresholds (mgr w1)) then
            init_devices drv gs
              (w1\<lparr>mgr := (mgr w1)\<lparr>update_thresholds :=
                 (update_thresholds (mgr w1))[nat g := total (dev_info (mgr w1) ! nat g)]\<rparr>\<rparr>)
          else Inl UB)"

text \<open>The second loop of \<open>init\<close>.\<close>

fun report_all :: "(int \<Rightarrow> mem_reply option) \<Rightarrow> int list \<Rightarrow> world \<Rightarrow> error + world" where
  "report_all drv [] w = Inr w"
| "report_all drv (g # gs) w =
     (case report_dev_info drv g w of Inl e \<Rightarrow> Inl e | Inr w1 \<Rightarrow> report_all drv gs w1)"

text \<open>
  \<open>init(gpus, debug)\<close>. \<open>ctor k\<close> tells whether the \<open>k\<close>-th construction of a
  \<open>cub::CachingDeviceAllocator\<close> attempted during this call succeeds (the first attempt
  is number 0); \<open>debug_env\<close> is \<open>getenv("DEBUG_GPU_MEM") != 0\<close>. A constructor that
  throws leaves \<open>cub_allocator_\<close> as it was, and the exception is swallowed.
\<close>

definition init ::
  "(nat \<Rightarrow> bool) \<Rightarrow> bool \<Rightarrow> (int \<Rightarrow> mem_reply option) \<Rightarrow> int list \<Rightarrow> bool \<Rightarrow> world \<Rightarrow> error + world" where
  "init ctor debug_env drv gpus dbg w =
     (if initialized (mgr w) then Inr w
      else
        let d = (dbg \<or> debug_env);
            m1 = (mgr w)\<lparr>debug := d\<rparr>;
            m2 = (if ctor 0
                  then m1\<lparr>cub_allocator :=
                         Some (CachingDeviceAllocator BIN_GROWTH MIN_BIN MAX_BIN MAX_CACHED_BYTES True d)\<rparr>
                  else m1);
            w2 = emit (CubNew d (ctor 0) #
                       (if ctor 0 \<and> cub_allocator (mgr w) \<noteq> None then [CubRelease] else []))
                   (w\<lparr>mgr := m2\<rparr>)
        in if cub_allocator m2 = None then Inl Fatal
           else case init_devices drv gpus w2 of
                  Inl e \<Rightarrow> Inl e
                | Inr w3 \<Rightarrow> report_all drv gpus (w3\<lparr>mgr := (mgr w3)\<lparr>initialized := True\<rparr>\<rparr>))"


subsection \<open>Allocator manager: try_allocate\<close>

text \<open>
  What the collaborators answer during one call of \<open>try_allocate\<close>:
  \<open>cur_device\<close> is \<open>current_device()\<close> (and \<open>cudaGetDevice\<close>);
  \<open>ctor\<close>, \<open>debug_env\<close> serve a lazy initialisation;
  \<open>stream\<close> is \<open>Caffe::thread_pstream(group)\<close>;
  \<open>alloc_status\<close>, \<open>alloc_ptr\<close>, \<open>size_allocated\<close> are the status of
  \<open>DeviceAllocate\<close>, the pointer it stores and the bytes it freshly carved;
  \<open>last_err\<close> is \<open>cudaGetLastError()\<close>; \<open>drv\<close> answers \<open>update_dev_info\<close>.
\<close>

record alloc_env =
  cur_device :: int
  ctor :: "nat \<Rightarrow> bool"
  debug_env :: bool
  stream :: nat
  alloc_status :: cudaError
  alloc_ptr :: ptr
  size_allocated :: size_t
  last_err :: cudaError
  drv :: "int \<Rightarrow> mem_reply option"

text \<open>
  \<open>lazy_init(device)\<close>. The function-local \<open>static Scope gpu_memory_scope(gpus)\<close> is
  constructed the first time control passes its declaration and never again.

  Modelled from the spec: the constructor of the Lifecycle Scope (declared in
  \<open>gpu_memory.hpp\<close>) calls the manager's \<open>init\<close> on its device list; the debug argument
  is taken to be \<open>false\<close>.
\<close>

definition lazy_init :: "alloc_env \<Rightarrow> int \<Rightarrow> world \<Rightarrow> error + world" where
  "lazy_init env device w =
     (if initialized (mgr w) then Inr w
      else
        let dev = (if device < 0 then cur_device env else device)
        in if lazy_scope w then Inr w
           else case init (ctor env) (debug_env env) (drv env) [dev] False w of
                  Inl e \<Rightarrow> Inl e
                | Inr w' \<Rightarrow> Inr (w'\<lparr>lazy_scope := True\<rparr>))"

text \<open>
  Lines 241 to 248: the bookkeeping after a successful allocation that carved fresh
  bytes. \<open>decay\<close> is the statement \<open>update_thresholds_[device] *= 0.9F\<close>.
\<close>

definition account :: "(size_t \<Rightarrow> size_t) \<Rightarrow> alloc_env \<Rightarrow> int \<Rightarrow> world \<Rightarrow> error + world" where
  "account decay env device w =
     (let d = nat device; m = mgr w in
      if d < length (dev_info m) \<and> d < length (update_thresholds m) then
        if free (dev_info m ! d) < update_thresholds m ! d then
          (case update_dev_info (drv env) device w of
             Inl e \<Rightarrow> Inl e
           | Inr w' \<Rightarrow>
               Inr (w'\<lparr>mgr := (mgr w')\<lparr>update_thresholds :=
                      (update_thresholds (mgr w'))[d := decay (update_thresholds (mgr w') ! d)]\<rparr>\<rparr>))
        else if free (dev_info m ! d) < size_allocated env then
          update_dev_info (drv env) device w
        else
          Inr (w\<lparr>mgr := m\<lparr>dev_info :=
                 (dev_info m)[d := (dev_info m ! d)\<lparr>free := free (dev_info m ! d) - size_allocated env\<rparr>]\<rparr>\<rparr>)
      else Inl UB)"

text \<open>\<open>dev_info_[i].flush_count_++\<close>\<close>

definition bump_flush_count :: "nat \<Rightarrow> world \<Rightarrow> world" where
  "bump_flush_count i w =
     w\<lparr>mgr := (mgr w)\<lparr>dev_info :=
        (dev_info (mgr w))[i := (dev_info (mgr w) ! i)\<lparr>flush_count := flush_count (dev_info (mgr w) ! i) + 1\<rparr>]\<rparr>\<rparr>"

text \<open>Lines 270 to 280: refresh every device that was initialised. The \<open>DLOG\<close> lines
  are compiled out of a release build and are left out.\<close>

fun flush_all :: "alloc_env \<Rightarrow> nat list \<Rightarrow> world \<Rightarrow> error + world" where
  "flush_all env [] w = Inr w"
| "flush_all env (i # is) w =
     (if total (dev_info (mgr w) ! i) \<noteq> 0 then
        (case update_dev_info (drv env) (int i) w of
           Inl e \<Rightarrow> Inl e
         | Inr w1 \<Rightarrow>
             flush_all env is (if int i = cur_device env then bump_flush_count i w1 else w1))
      else flush_all env is w)"

text \<open>Lines 256 to 282: the forced refresh after a failed call or a pending driver error.\<close>

definition flush :: "alloc_env \<Rightarrow> int \<Rightarrow> world \<Rightarrow> error + world" where
  "flush env device w =
     (if device > INVALID_DEVICE \<and> nat device < length (dev_info (mgr w)) then
        if total (dev_info (mgr w) ! nat device) \<noteq> 0 then
          (case update_dev_info (drv env) device w of
             Inl e \<Rightarrow> Inl e
           | Inr w1 \<Rightarrow> Inr (bump_flush_count (nat device) w1))
        else Inr w
      else flush_all env [0 ..< length (dev_info (mgr w))] (emit [GetDevice] w))"

text \<open>
  Lines 232 to 251, the block that holds the shared lock: the call of
  \<open>DeviceAllocate\<close> and the bookkeeping that follows a success.
\<close>

definition locked_allocate ::
  "(size_t \<Rightarrow> size_t) \<Rightarrow> alloc_env \<Rightarrow> size_t \<Rightarrow> int \<Rightarrow> world \<Rightarrow> error + world" where
  "locked_allocate decay env sz device w =
     (let w1 = emit [Lock Shared,
                     DeviceAllocate device sz (alloc_status env) (size_allocated env)] w
      in if alloc_status env = cudaSuccess \<and> device > INVALID_DEVICE \<and> size_allocated env > 0
         then account decay env device w1
         else Inr w1)"

text \<open>Lines 254 to 282: \<open>cudaGetLastError()\<close> and the forced refresh it may trigger.\<close>

definition check_last_error :: "alloc_env \<Rightarrow> int \<Rightarrow> world \<Rightarrow> error + world" where
  "check_last_error env device w =
     (let w3 = emit [GetLastError (last_err env)] w
      in if alloc_status env \<noteq> cudaSuccess \<or> last_err env \<noteq> cudaSuccess
         then flush env device w3
         else Inr w3)"

text \<open>
  \<open>try_allocate(ptr, pstream, size, device, group)\<close>. The result is the returned
  \<open>bool\<close>, the pointer left in \<open>*ptr\<close>, the stream left in \<open>pstream\<close> and the new
  state. Calling \<open>DeviceAllocate\<close> through an empty \<open>cub_allocator_\<close> is a null
  dereference. \<open>CHECK_NOTNULL(ptr)\<close> tests the address of the caller's variable, which
  the model returns as a value, so it cannot fail here.
\<close>

definition try_allocate ::
  "(size_t \<Rightarrow> size_t) \<Rightarrow> alloc_env \<Rightarrow> size_t \<Rightarrow> int \<Rightarrow> int \<Rightarrow> world
     \<Rightarrow> error + (bool \<times> ptr \<times> nat \<times> world)" where
  "try_allocate decay env sz device grp w =
     (case (if \<not> initialized (mgr w) then lazy_init env device w else Inr w) of
        Inl e \<Rightarrow> Inl e
      | Inr w0 \<Rightarrow>
          if cur_device env \<noteq> device then Inl Fatal
          else if cub_allocator (mgr w0) = None then Inl UB
          else
            (case locked_allocate decay env sz device w0 of
               Inl e \<Rightarrow> Inl e
             | Inr w2 \<Rightarrow>
                 (case check_last_error env device w2 of
                    Inl e \<Rightarrow> Inl e
                  | Inr w4 \<Rightarrow> Inr (alloc_status env = cudaSuccess, alloc_ptr env, stream env, w4))))"

subsection \<open>Workspace\<close>

text \<open>The members \<open>ptr_\<close>, \<open>size_\<close>, \<open>device_\<close> and \<open>pstream_\<close> of a workspace; \<open>size\<close>
  is taken in HOL, so the fields carry the suffix \<open>_ws\<close>.\<close>

record Workspace =
  ptr_ws :: ptr
  size_ws :: size_t
  device_ws :: int
  pstream_ws :: nat

text \<open>
  Modelled from the spec: \<open>Workspace::release()\<close> is defined in \<open>gpu_memory.hpp\<close>.
  It frees held memory through the manager's \<open>deallocate\<close> and resets the pointer and
  the size to empty; on an empty workspace it changes nothing.
\<close>

definition release ::
  "cudaError \<Rightarrow> cudaError \<times> size_t \<Rightarrow> Workspace \<times> world \<Rightarrow> error + (Workspace \<times> world)" where
  "release get_device_status free_reply x =
     (case x of (ws, w) \<Rightarrow>
        (if ptr_ws ws = 0 then Inr (ws\<lparr>size_ws := 0\<rparr>, w)
         else (case deallocate get_device_status free_reply (ptr_ws ws) (device_ws ws) w of
                 Inl e \<Rightarrow> Inl e
               | Inr w' \<Rightarrow> Inr (ws\<lparr>ptr_ws := 0, size_ws := 0\<rparr>, w'))))"

text \<open>\<open>Workspace::try_reserve(size, device)\<close>; \<open>try_allocate\<close> is called with its
  default \<open>group = 0\<close>.\<close>

definition try_reserve ::
  "(size_t \<Rightarrow> size_t) \<Rightarrow> cudaError \<Rightarrow> cudaError \<times> size_t \<Rightarrow> alloc_env \<Rightarrow> size_t \<Rightarrow> int
     \<Rightarrow> Workspace \<times> world \<Rightarrow> error + (bool \<times> Workspace \<times> world)" where
  "try_reserve decay get_device_status free_reply env sz device x =
     (case x of (ws, w) \<Rightarrow>
        (if sz > size_ws ws \<or> ptr_ws ws = 0 then
           (case release get_device_status free_reply (ws, w) of
              Inl e \<Rightarrow> Inl e
            | Inr (ws1, w1) \<Rightarrow>
                (case try_allocate decay env sz
                        (if device \<noteq> INVALID_DEVICE then device else device_ws ws1) 0 w1 of
                   Inl e \<Rightarrow> Inl e
                 | Inr (status, p, s, w2) \<Rightarrow>
                     (let ws3 = ws1\<lparr>device_ws := (if device \<noteq> INVALID_DEVICE then device
                                                     else device_ws ws1),
                                    ptr_ws := p, pstream_ws := s\<rparr>
                      in if status then
                           (if p = 0 then Inl Fatal else Inr (True, ws3\<lparr>size_ws := sz\<rparr>, w2))
                         else Inr (False, ws3, w2))))
         else Inr (True, ws, w)))"


subsection \<open>Process-wide pinned buffers\<close>

text \<open>
  \<open>resize_buffers(device, group)\<close>: grows the three tables in step and tells whether it
  did. The three tables are only ever resized together (here and in the constructor);
  should their lengths differ, the indexing below would run out of range.
\<close>

definition resize_buffers :: "int \<Rightarrow> int \<Rightarrow> Manager \<Rightarrow> error + (bool \<times> Manager)" where
  "resize_buffers device grp m =
     (if device < 0 \<or> grp < 0 then Inl Fatal
      else
        let d = nat device; g = nat grp;
            r1 = (d + 1 > length (pinned_buffer_sizes m));
            m1 = (if r1
                  then m\<lparr>pinned_host_buffers := resize (d + 1) [] (pinned_host_buffers m),
                         pinned_device_buffers := resize (d + 1) [] (pinned_device_buffers m),
                         pinned_buffer_sizes := resize (d + 1) [] (pinned_buffer_sizes m)\<rparr>
                  else m)
        in if d < length (pinned_host_buffers m1) \<and> d < length (pinned_device_buffers m1) then
             let r2 = (g + 1 > length (pinned_buffer_sizes m1 ! d));
                 m2 = (if r2
                       then m1\<lparr>pinned_host_buffers := (pinned_host_buffers m1)
                                  [d := resize (g + 1) 0 (pinned_host_buffers m1 ! d)],
                               pinned_device_buffers := (pinned_device_buffers m1)
                                  [d := resize (g + 1) 0 (pinned_device_buffers m1 ! d)],
                               pinned_buffer_sizes := (pinned_buffer_sizes m1)
                                  [d := resize (g + 1) 0 (pinned_buffer_sizes m1 ! d)]\<rparr>
                       else m1)
             in Inr (r1 \<or> r2, m2)
           else Inl UB)"

text \<open>
  \<open>pinned_buffer(size, device, group)\<close>. \<open>host_reply\<close> is the pair of the host pointer
  \<open>cudaHostAlloc\<close> stores and the device pointer \<open>cudaHostGetDevicePointer\<close> stores,
  \<open>None\<close> when one of the two \<open>CUDA_CHECK\<close>s fails.
\<close>

definition pinned_buffer ::
  "(ptr \<times> ptr) option \<Rightarrow> size_t \<Rightarrow> int \<Rightarrow> int \<Rightarrow> world \<Rightarrow> error + (ptr \<times> world)" where
  "pinned_buffer host_reply sz device grp w =
     (case resize_buffers device grp (mgr w) of
        Inl e \<Rightarrow> Inl e
      | Inr (resized, m) \<Rightarrow>
          (let d = nat device; g = nat grp; sz' = max sz INITIAL_PINNED_BYTES
           in if g < length (pinned_host_buffers m ! d) \<and> g < length (pinned_device_buffers m ! d)
              then
                (if sz' > pinned_buffer_sizes m ! d ! g \<or> resized then
                   (case host_reply of
                      None \<Rightarrow> Inl Fatal
                    | Some (hptr, dptr) \<Rightarrow>
                        Inr (dptr,
                             emit ([Lock Shared]
                                   @ (if \<not> resized then [FreeHost (pinned_host_buffers m ! d ! g)] else [])
                                   @ [HostAlloc sz' hptr, HostGetDevicePointer hptr dptr])
                               (w\<lparr>mgr := m\<lparr>
                                  pinned_host_buffers := (pinned_host_buffers m)
                                    [d := (pinned_host_buffers m ! d)[g := hptr]],
                                  pinned_device_buffers := (pinned_device_buffers m)
                                    [d := (pinned_device_buffers m ! d)[g := dptr]],
                                  pinned_buffer_sizes := (pinned_buffer_sizes m)
                                    [d := (pinned_buffer_sizes m ! d)[g := sz']]\<rparr>\<rparr>)))
                 else Inr (pinned_device_buffers m ! d ! g, w\<lparr>mgr := m\<rparr>))
              else Inl UB))"

subsection \<open>Thread-local pinned buffers\<close>

text \<open>
  The three \<open>static thread_local\<close> containers of \<open>thread_pinned_buffer\<close>. The two
  \<open>unordered_map\<close>s are association lists with distinct keys; each value is the
  pointer owned by the \<open>unique_ptr\<close>.
\<close>

record thread_pool =
  host_buffers :: "(int \<times> ptr) list"
  device_buffers :: "(int \<times> ptr) list"
  sizes :: "size_t list"

definition thread_pool0 :: thread_pool where
  "thread_pool0 = \<lparr>host_buffers = [], device_buffers = [], sizes = []\<rparr>"

text \<open>
  \<open>unordered_map::emplace\<close> inserts only when the key is absent. When the key is present
  the map is left as it is, and the \<open>unique_ptr\<close> that was to be inserted is destroyed
  at the end of the statement, which runs its deleter on the pointer: the second
  component is that pointer.
\<close>

definition emplace :: "int \<Rightarrow> ptr \<Rightarrow> (int \<times> ptr) list \<Rightarrow> (int \<times> ptr) list \<times> ptr option" where
  "emplace k p m = (if map_of m k = None then (m @ [(k, p)], None) else (m, Some p))"

text \<open>\<open>host_buffer_cleaner\<close>: a shared lock, then \<open>cudaFreeHost\<close>.
  \<open>device_buffer_cleaner\<close> does nothing.\<close>

definition host_buffer_cleaner :: "ptr \<Rightarrow> event list" where
  "host_buffer_cleaner buffer = [Lock Shared, FreeHost buffer]"

text \<open>
  \<open>thread_pinned_buffer(size, group)\<close>. \<open>group + 1U\<close> is computed in 32-bit unsigned
  arithmetic; \<open>sizes[group]\<close> converts \<open>group\<close> to \<open>size_t\<close>, so a negative group
  reads out of range. \<open>find(group)->second\<close> on a missing key dereferences \<open>end()\<close>.
\<close>

definition thread_pinned_buffer ::
  "(ptr \<times> ptr) option \<Rightarrow> size_t \<Rightarrow> int \<Rightarrow> thread_pool \<times> world
     \<Rightarrow> error + (ptr \<times> thread_pool \<times> world)" where
  "thread_pinned_buffer host_reply sz grp x =
     (case x of (tp, w) \<Rightarrow>
        (if \<not> sz > 0 then Inl Fatal
         else
           let n = unat (word_of_int grp + 1 :: 32 word);
               sizes1 = (if n > length (sizes tp) then resize n 0 (sizes tp) else sizes tp)
           in if grp < 0 \<or> nat grp \<ge> length sizes1 then Inl UB
              else
                (case (if sz > sizes1 ! nat grp then
                         (case host_reply of
                            None \<Rightarrow> Inl Fatal
                          | Some (hptr, dptr) \<Rightarrow>
                              Inr (tp\<lparr>host_buffers := fst (emplace grp hptr (host_buffers tp)),
                                      device_buffers := fst (emplace grp dptr (device_buffers tp)),
                                      sizes := sizes1[nat grp := sz]\<rparr>,
                                   emit ([HostAlloc sz hptr, HostGetDevicePointer hptr dptr]
                                         @ (case snd (emplace grp hptr (host_buffers tp)) of
                                              None \<Rightarrow> [] | Some q \<Rightarrow> host_buffer_cleaner q)) w))
                       else Inr (tp\<lparr>sizes := sizes1\<rparr>, w)) of
                   Inl e \<Rightarrow> Inl e
                 | Inr (tp', w') \<Rightarrow>
                     (case map_of (device_buffers tp') grp of
                        None \<Rightarrow> Inl UB
                      | Some p \<Rightarrow> Inr (p, tp', w')))))"

text \<open>
  The destruction of the thread-local containers at thread exit runs the host
  cleaner on every host buffer the pool owns. The C++ standard leaves the order open;
  the entries are taken newest first, the order of the node list of libstdc++.
\<close>

definition thread_exit :: "thread_pool \<times> world \<Rightarrow> world" where
  "thread_exit x = (case x of (tp, w) \<Rightarrow> emit (concat (map (\<lambda>kv. host_buffer_cleaner (snd kv)) (rev (host_buffers tp)))) w)"


subsection \<open>The decay of a refresh threshold\<close>

text \<open>
  \<open>update_thresholds_[device] *= 0.9F\<close> is taken as the parameter \<open>decay\<close> of
  \<open>account\<close>, since the element type is declared in \<open>gpu_memory.hpp\<close>. The function
  below is that statement for a \<open>size_t\<close> element on IEEE binary32 arithmetic: the
  threshold is converted to \<open>float\<close> (round to nearest even, 24 significant bits),
  multiplied by the constant \<open>0.9F = 15099494 / 2^24\<close>, rounded again, and truncated
  back to an integer.
\<close>

fun bit_length :: "nat \<Rightarrow> nat" where
  "bit_length n = (if n = 0 then 0 else Suc (bit_length (n div 2)))"

declare bit_length.simps [simp del]

definition round_to_float :: "nat \<Rightarrow> nat" where
  "round_to_float x =
     (if x < 2 ^ 24 then x
      else
        let e = bit_length x - 24; q = x div 2 ^ e; r = x mod 2 ^ e; h = 2 ^ (e - 1)
        in (if r > h \<or> (r = h \<and> odd q) then q + 1 else q) * 2 ^ e)"

definition mul_0_9F :: "size_t \<Rightarrow> size_t" where
  "mul_0_9F t = of_nat (round_to_float (round_to_float (unat t) * 15099494) div 2 ^ 24)"

subsection \<open>Sequences of calls\<close>

text \<open>A call of the manager together with what the collaborators answer during it.\<close>

datatype call =
    Init "nat \<Rightarrow> bool" bool "int \<Rightarrow> mem_reply option" "int list" bool
  | Try_allocate alloc_env size_t int int
  | Deallocate cudaError "cudaError \<times> size_t" ptr int
  | Get_info "int option" "int \<Rightarrow> mem_reply option" "int \<Rightarrow> size_t" bool
  | Update_dev_info "int \<Rightarrow> mem_reply option" int

primrec step :: "(size_t \<Rightarrow> size_t) \<Rightarrow> call \<Rightarrow> world \<Rightarrow> error + world" where
  "step dc (Init c de dr gpus dbg) w = init c de dr gpus dbg w"
| "step dc (Try_allocate env sz device g) w =
     (case try_allocate dc env sz device g w of Inl e \<Rightarrow> Inl e | Inr (b, p, s, w') \<Rightarrow> Inr w')"
| "step dc (Deallocate st fr p device) w = deallocate st fr p device w"
| "step dc (Get_info gd dr cf wu) w =
     (case GetInfo gd dr cf wu w of Inl e \<Rightarrow> Inl e | Inr (f, t, w') \<Rightarrow> Inr w')"
| "step dc (Update_dev_info dr device) w = update_dev_info dr device w"

text \<open>A sequence stops at the first call that aborts.\<close>

primrec run :: "(size_t \<Rightarrow> size_t) \<Rightarrow> call list \<Rightarrow> world \<Rightarrow> error + world" where
  "run dc [] w = Inr w"
| "run dc (c # cs) w = (case step dc c w of Inl e \<Rightarrow> Inl e | Inr w' \<Rightarrow> run dc cs w')"

text \<open>The invariant \<open>free \<le> total\<close> on every entry of \<open>dev_info_\<close>.\<close>

definition dev_inv :: "world \<Rightarrow> bool" where
  "dev_inv w = list_all (\<lambda>di. free di \<le> total di) (dev_info (mgr w))"

text \<open>
  A \<open>deallocate\<close> whose credit fits: when the call reaches \<open>free_ += size_deallocated\<close>,
  the sum does not pass \<open>total_\<close> (and so does not wrap either).
\<close>

definition credit_fits :: "call \<Rightarrow> world \<Rightarrow> bool" where
  "credit_fits c w =
     (case c of
        Deallocate st fr p device \<Rightarrow>
          (p \<noteq> 0 \<and> cub_allocator (mgr w) \<noteq> None \<and> st \<noteq> cudaErrorCudartUnloading
             \<and> 0 \<le> device \<and> nat device < length (dev_info (mgr w))) \<longrightarrow>
          unat (free (dev_info (mgr w) ! nat device)) + unat (snd fr)
            \<le> unat (total (dev_info (mgr w) ! nat device))
      | _ \<Rightarrow> True)"

primrec credits_fit :: "(size_t \<Rightarrow> size_t) \<Rightarrow> call list \<Rightarrow> world \<Rightarrow> bool" where
  "credits_fit dc [] w = True"
| "credits_fit dc (c # cs) w =
     (credit_fits c w \<and> (case step dc c w of Inl e \<Rightarrow> True | Inr w' \<Rightarrow> credits_fit dc cs w'))"

text \<open>A forced refresh is a driver query made by \<open>update_dev_info\<close>.\<close>

fun is_refresh :: "event \<Rightarrow> bool" where
  "is_refresh (MemGetInfo _) = True"
| "is_refresh _ = False"

definition refreshes :: "world \<Rightarrow> nat" where
  "refreshes w = length (filter is_refresh (calls w))"

text \<open>The bytes the trace says were carved from, and returned to, device \<open>d\<close>.\<close>

fun carved_by :: "int \<Rightarrow> event \<Rightarrow> size_t" where
  "carved_by d (DeviceAllocate d' _ st sa) = (if d' = d \<and> st = cudaSuccess then sa else 0)"
| "carved_by d _ = 0"

fun freed_by :: "int \<Rightarrow> event \<Rightarrow> size_t" where
  "freed_by d (DeviceFree d' _ st sd) = (if d' = d \<and> st = cudaSuccess then sd else 0)"
| "freed_by d _ = 0"

definition carved :: "int \<Rightarrow> world \<Rightarrow> size_t" where
  "carved d w = sum_list (map (carved_by d) (calls w))"

definition freed :: "int \<Rightarrow> world \<Rightarrow> size_t" where
  "freed d w = sum_list (map (freed_by d) (calls w))"

definition on_device :: "int \<Rightarrow> call \<Rightarrow> bool" where
  "on_device d c =
     (case c of Try_allocate env sz device g \<Rightarrow> device = d
              | Deallocate st fr p device \<Rightarrow> device = d
              | _ \<Rightarrow> False)"

text \<open>The estimate corrected by what the trace says was carved and freed.\<close>

definition balance :: "int \<Rightarrow> world \<Rightarrow> size_t" where
  "balance d w = free (dev_info (mgr w) ! nat d) + carved d w - freed d w"

text \<open>
  The estimate as the specification words it: the initial estimate minus the bytes
  allocated plus the bytes freed, clamped to the interval from 0 to the total.
\<close>

definition spec_clamped_estimate :: "int \<Rightarrow> int \<Rightarrow> int \<Rightarrow> int \<Rightarrow> int" where
  "spec_clamped_estimate initial_free allocated released total_mem =
     max 0 (min total_mem (initial_free - allocated + released))"

subsection \<open>Concrete scenarios\<close>

text \<open>A process that has just started on a machine with one device.\<close>

definition world0 :: world where
  "world0 = \<lparr>mgr = Manager_ctor 1, calls = [], lazy_scope = False\<rparr>"

text \<open>A driver that reports 1000 bytes, all of them free, and the same device with 950,
  900 and 20 bytes free.\<close>

definition drv_idle :: "int \<Rightarrow> mem_reply option" where
  "drv_idle d = Some \<lparr>totalGlobalMem = 1000, mem_free = 1000, mem_total = 1000\<rparr>"

definition drv_900 :: "int \<Rightarrow> mem_reply option" where
  "drv_900 d = Some \<lparr>totalGlobalMem = 1000, mem_free = 900, mem_total = 1000\<rparr>"

definition drv_950 :: "int \<Rightarrow> mem_reply option" where
  "drv_950 d = Some \<lparr>totalGlobalMem = 1000, mem_free = 950, mem_total = 1000\<rparr>"

definition drv_20 :: "int \<Rightarrow> mem_reply option" where
  "drv_20 d = Some \<lparr>totalGlobalMem = 1000, mem_free = 20, mem_total = 1000\<rparr>"

text \<open>
  A device whose properties report less memory (900 bytes) than \<open>cudaMemGetInfo\<close> does
  (1000 bytes), the case the \<open>std::min\<close> of \<open>update_dev_info\<close> provides for: first with
  950 bytes free, then with 900 bytes free after 50 more bytes were carved.
\<close>

definition drv_props_950 :: "int \<Rightarrow> mem_reply option" where
  "drv_props_950 d = Some \<lparr>totalGlobalMem = 900, mem_free = 950, mem_total = 1000\<rparr>"

definition drv_props_900 :: "int \<Rightarrow> mem_reply option" where
  "drv_props_900 d = Some \<lparr>totalGlobalMem = 900, mem_free = 900, mem_total = 1000\<rparr>"

definition cached_none :: "int \<Rightarrow> size_t" where
  "cached_none d = 0"

definition ctor_ok :: "nat \<Rightarrow> bool" where
  "ctor_ok k = True"

text \<open>A constructor that throws on the first attempt and would succeed on any later one.\<close>

definition ctor_fails_first :: "nat \<Rightarrow> bool" where
  "ctor_fails_first k = (k \<noteq> 0)"

definition cub0 :: cub where
  "cub0 = CachingDeviceAllocator 2 6 22 (- 1) True False"

text \<open>The state after \<open>init({0}, false)\<close> on \<open>world0\<close> with the idle driver.\<close>

definition world1 :: world where
  "world1 =
     \<lparr>mgr = \<lparr>debug = False, initialized = True, cub_allocator = Some cub0,
             dev_info = [\<lparr>free = 1000, total = 1000, flush_count = 0\<rparr>],
             update_thresholds = [1000],
             pinned_host_buffers = [[]], pinned_device_buffers = [[]],
             pinned_buffer_sizes = [[]]\<rparr>,
      calls = [CubNew False True, MemGetInfo 0, Lock Shared],
      lazy_scope = False\<rparr>"

text \<open>A successful \<open>DeviceAllocate\<close> on device 0 that carved \<open>n\<close> fresh bytes and left no
  pending driver error; \<open>dr\<close> answers a refresh.\<close>

definition env_carve :: "size_t \<Rightarrow> (int \<Rightarrow> mem_reply option) \<Rightarrow> alloc_env" where
  "env_carve n dr =
     \<lparr>cur_device = 0, ctor = ctor_ok, debug_env = False, stream = 7,
      alloc_status = cudaSuccess, alloc_ptr = 4096, size_allocated = n,
      last_err = cudaSuccess, drv = dr\<rparr>"

text \<open>
  The state after two allocations of 10 carved bytes each on \<open>world1\<close>: the first is
  debited, the second finds the estimate below the threshold, so the estimate is
  refreshed (another process holds 30 bytes at that moment: 950 free) and the threshold
  decays to 900.
\<close>

definition world_decayed :: world where
  "world_decayed =
     \<lparr>mgr = \<lparr>debug = False, initialized = True, cub_allocator = Some cub0,
             dev_info = [\<lparr>free = 950, total = 1000, flush_count = 0\<rparr>],
             update_thresholds = [900],
             pinned_host_buffers = [[]], pinned_device_buffers = [[]],
             pinned_buffer_sizes = [[]]\<rparr>,
      calls = [CubNew False True, MemGetInfo 0, Lock Shared,
               Lock Shared, DeviceAllocate 0 10 cudaSuccess 10, GetLastError cudaSuccess,
               Lock Shared, DeviceAllocate 0 10 cudaSuccess 10, MemGetInfo 0, GetLastError cudaSuccess],
      lazy_scope = False\<rparr>"

text \<open>
  The state after \<open>init({0}, false)\<close>, an allocation that carved 50 bytes, and a
  \<open>GetInfo\<close> with refresh, on the device whose properties report 900 bytes: the estimate
  is 900 of 900 bytes while a block of 50 bytes is held.
\<close>

definition world_held :: world where
  "world_held =
     \<lparr>mgr = \<lparr>debug = False, initialized = True, cub_allocator = Some cub0,
             dev_info = [\<lparr>free = 900, total = 900, flush_count = 0\<rparr>],
             update_thresholds = [900],
             pinned_host_buffers = [[]], pinned_device_buffers = [[]],
             pinned_buffer_sizes = [[]]\<rparr>,
      calls = [CubNew False True, MemGetInfo 0, Lock Shared,
               Lock Shared, DeviceAllocate 0 50 cudaSuccess 50, GetLastError cudaSuccess,
               GetDevice, MemGetInfo 0],
      lazy_scope = False\<rparr>"

definition cached_50 :: "int \<Rightarrow> size_t" where
  "cached_50 d = 50"

definition workspace0 :: Workspace where
  "workspace0 = \<lparr>ptr_ws = 0, size_ws = 0, device_ws = 0, pstream_ws = 0\<rparr>"

text \<open>The events of a trace that are calls into the underlying cache.\<close>

fun is_cache_call :: "event \<Rightarrow> bool" where
  "is_cache_call (DeviceAllocate _ _ _ _) = True"
| "is_cache_call (DeviceFree _ _ _ _) = True"
| "is_cache_call (CubNew _ _) = True"
| "is_cache_call CubRelease = True"
| "is_cache_call _ = False"

section \<open>Theorems\<close>

subsection \<open>Results that abort, results that return\<close>

lemma case_sum_Inr_iff:
  "(case m of Inl e \<Rightarrow> Inl e | Inr x \<Rightarrow> f x) = Inr y \<longleftrightarrow> (\<exists>x. m = Inr x \<and> f x = Inr y)"
  by (cases m) auto

lemma dev_inv_emit: "dev_inv (emit evs w) = dev_inv w"
  by (simp add: dev_inv_def emit_def)

lemma list_all_update: "list_all P xs \<Longrightarrow> P x \<Longrightarrow> list_all P (xs[i := x])"
  by (induction xs arbitrary: i) (auto split: nat.splits)

lemma list_all_resize: "list_all P xs \<Longrightarrow> P d \<Longrightarrow> list_all P (resize n d xs)"
  by (auto simp: resize_def list_all_iff dest: in_set_takeD)

lemma update_dev_info_cases:
  assumes "update_dev_info dr d w = Inr w'"
  obtains r t di where "0 \<le> d" and "dr d = Some r" and "t = min (totalGlobalMem r) (mem_total r)"
    and "di = (if nat d + 1 > length (dev_info (mgr w)) then resize (nat d + 1) DevInfo0 (dev_info (mgr w))
               else dev_info (mgr w))"
    and "w' = w\<lparr>mgr := (mgr w)\<lparr>dev_info := di[nat d := (di ! nat d)\<lparr>free := min t (mem_free r), total := t\<rparr>]\<rparr>,
               calls := calls w @ [MemGetInfo d]\<rparr>"
  using assms
  by (simp add: update_dev_info_def Let_def emit_def split: if_splits option.splits)

lemma update_dev_info_inv:
  assumes "dev_inv w" and "update_dev_info dr d w = Inr w'"
  shows "dev_inv w'"
proof -
  from assms(2) obtain r :: mem_reply and t di where t: "t = min (totalGlobalMem r) (mem_total r)"
    and di: "di = (if nat d + 1 > length (dev_info (mgr w)) then resize (nat d + 1) DevInfo0 (dev_info (mgr w))
               else dev_info (mgr w))"
    and w': "w' = w\<lparr>mgr := (mgr w)\<lparr>dev_info := di[nat d := (di ! nat d)\<lparr>free := min t (mem_free r), total := t\<rparr>]\<rparr>,
               calls := calls w @ [MemGetInfo d]\<rparr>"
    by (rule update_dev_info_cases)
  have "list_all (\<lambda>x. free x \<le> total x) di"
    using assms(1) by (simp add: di dev_inv_def list_all_resize DevInfo0_def)
  then have "list_all (\<lambda>x. free x \<le> total x) (di[nat d := (di ! nat d)\<lparr>free := min t (mem_free r), total := t\<rparr>])"
    by (rule list_all_update) simp
  then show ?thesis by (simp add: w' dev_inv_def)
qed

lemma update_dev_info_at:
  assumes "update_dev_info dr d w = Inr w'"
  shows "nat d < length (dev_info (mgr w'))
       \<and> free (dev_info (mgr w') ! nat d) \<le> total (dev_info (mgr w') ! nat d)"
proof -
  from assms obtain r :: mem_reply and t di where
    di: "di = (if nat d + 1 > length (dev_info (mgr w)) then resize (nat d + 1) DevInfo0 (dev_info (mgr w))
               else dev_info (mgr w))"
    and w': "w' = w\<lparr>mgr := (mgr w)\<lparr>dev_info := di[nat d := (di ! nat d)\<lparr>free := min t (mem_free r), total := t\<rparr>]\<rparr>,
               calls := calls w @ [MemGetInfo d]\<rparr>"
    by (rule update_dev_info_cases)
  have "nat d < length di" by (simp add: di resize_def)
  then show ?thesis by (simp add: w')
qed

lemma init_devices_inv:
  "dev_inv w \<Longrightarrow> init_devices dr gpus w = Inr w' \<Longrightarrow> dev_inv w'"
proof (induction gpus arbitrary: w)
  case Nil
  then show ?case by simp
next
  case (Cons g gs)
  from Cons.prems(2) obtain w1 where u: "update_dev_info dr g w = Inr w1"
    and r: "init_devices dr gs
              (w1\<lparr>mgr := (mgr w1)\<lparr>update_thresholds :=
                 (update_thresholds (mgr w1))[nat g := total (dev_info (mgr w1) ! nat g)]\<rparr>\<rparr>) = Inr w'"
    by (auto split: sum.splits if_splits)
  have "dev_inv w1" using update_dev_info_inv [OF Cons.prems(1) u] .
  then have "dev_inv (w1\<lparr>mgr := (mgr w1)\<lparr>update_thresholds :=
                 (update_thresholds (mgr w1))[nat g := total (dev_info (mgr w1) ! nat g)]\<rparr>\<rparr>)"
    by (simp add: dev_inv_def)
  then show ?case using Cons.IH r by blast
qed

lemma report_all_mgr: "report_all dr gpus w = Inr w' \<Longrightarrow> mgr w' = mgr w"
  by (induction gpus arbitrary: w)
     (auto simp: report_dev_info_def emit_def split: sum.splits option.splits if_splits)

lemma init_inv:
  assumes "dev_inv w" and "init c de dr gpus dbg w = Inr w'"
  shows "dev_inv w'"
proof (cases "initialized (mgr w)")
  case True
  then show ?thesis using assms by (simp add: init_def)
next
  case False
  let ?d = "dbg \<or> de"
  let ?m2 = "(if c 0 then (mgr w)\<lparr>debug := ?d, cub_allocator :=
                 Some (CachingDeviceAllocator BIN_GROWTH MIN_BIN MAX_BIN MAX_CACHED_BYTES True ?d)\<rparr>
             else (mgr w)\<lparr>debug := ?d\<rparr>)"
  let ?w2 = "emit (CubNew ?d (c 0) # (if c 0 \<and> cub_allocator (mgr w) \<noteq> None then [CubRelease] else []))
               (w\<lparr>mgr := ?m2\<rparr>)"
  from assms(2) False obtain w3 where
    a: "init_devices dr gpus ?w2 = Inr w3"
    and b: "report_all dr gpus (w3\<lparr>mgr := (mgr w3)\<lparr>initialized := True\<rparr>\<rparr>) = Inr w'"
    by (simp add: init_def Let_def case_sum_Inr_iff split: if_splits)
  have "dev_inv ?w2" using assms(1) by (simp add: dev_inv_def emit_def)
  then have "dev_inv w3" using init_devices_inv a by blast
  then have "dev_inv (w3\<lparr>mgr := (mgr w3)\<lparr>initialized := True\<rparr>\<rparr>)" by (simp add: dev_inv_def)
  then show ?thesis using report_all_mgr [OF b] by (simp add: dev_inv_def)
qed


lemma lazy_init_inv:
  assumes "dev_inv w" and "lazy_init env device w = Inr w'"
  shows "dev_inv w'"
proof -
  have "w' = w \<or> (\<exists>w1 dev. init (ctor env) (debug_env env) (drv env) [dev] False w = Inr w1
                     \<and> w' = w1\<lparr>lazy_scope := True\<rparr>)"
    using assms(2) by (auto simp: lazy_init_def Let_def split: if_splits sum.splits)
  then show ?thesis
    using assms(1) init_inv by (auto simp: dev_inv_def)
qed

lemma account_inv:
  assumes "dev_inv w" and "account dc env device w = Inr w'"
  shows "dev_inv w'"
proof -
  let ?d = "nat device"
  let ?f = "free (dev_info (mgr w) ! ?d)"
  have rng: "?d < length (dev_info (mgr w)) \<and> ?d < length (update_thresholds (mgr w))"
    using assms(2) by (simp add: account_def Let_def split: if_splits)
  show ?thesis
  proof (cases "?f < update_thresholds (mgr w) ! ?d")
    case True
    then obtain w1 where u: "update_dev_info (drv env) device w = Inr w1"
      and w': "w' = w1\<lparr>mgr := (mgr w1)\<lparr>update_thresholds :=
                 (update_thresholds (mgr w1))[?d := dc (update_thresholds (mgr w1) ! ?d)]\<rparr>\<rparr>"
      using assms(2) rng by (simp add: account_def Let_def case_sum_Inr_iff) blast
    show ?thesis using update_dev_info_inv [OF assms(1) u] by (simp add: w' dev_inv_def)
  next
    case False
    note nothr = False
    show ?thesis
    proof (cases "?f < size_allocated env")
      case True
      then have "update_dev_info (drv env) device w = Inr w'"
        using assms(2) rng nothr by (simp add: account_def Let_def)
      then show ?thesis by (rule update_dev_info_inv [OF assms(1)])
    next
      case False
      then have w': "w' = w\<lparr>mgr := (mgr w)\<lparr>dev_info :=
                 (dev_info (mgr w))[?d := (dev_info (mgr w) ! ?d)\<lparr>free := ?f - size_allocated env\<rparr>]\<rparr>\<rparr>"
        using assms(2) rng nothr by (simp add: account_def Let_def)
      have "?f \<le> total (dev_info (mgr w) ! ?d)"
        using assms(1) rng by (simp add: dev_inv_def list_all_length)
      moreover have "?f - size_allocated env \<le> ?f"
        using False by (simp add: word_sub_le not_less)
      ultimately have "?f - size_allocated env \<le> total (dev_info (mgr w) ! ?d)"
        by simp
      then have "list_all (\<lambda>x. free x \<le> total x)
                 ((dev_info (mgr w))[?d := (dev_info (mgr w) ! ?d)\<lparr>free := ?f - size_allocated env\<rparr>])"
        using assms(1) by (intro list_all_update) (simp_all add: dev_inv_def)
      then show ?thesis by (simp add: w' dev_inv_def)
    qed
  qed
qed

lemma bump_flush_count_inv: "dev_inv w \<Longrightarrow> dev_inv (bump_flush_count i w)"
proof (cases "i < length (dev_info (mgr w))")
  case True
  assume "dev_inv w"
  then have "free (dev_info (mgr w) ! i) \<le> total (dev_info (mgr w) ! i)"
    using True by (simp add: dev_inv_def list_all_length)
  then have "list_all (\<lambda>x. free x \<le> total x)
     ((dev_info (mgr w))[i := (dev_info (mgr w) ! i)\<lparr>flush_count := flush_count (dev_info (mgr w) ! i) + 1\<rparr>])"
    using \<open>dev_inv w\<close> by (intro list_all_update) (simp_all add: dev_inv_def)
  then show ?thesis by (simp add: bump_flush_count_def dev_inv_def)
next
  case False
  assume "dev_inv w"
  then show ?thesis using False by (simp add: bump_flush_count_def dev_inv_def list_update_beyond)
qed

lemma flush_all_inv:
  "dev_inv w \<Longrightarrow> flush_all env is w = Inr w' \<Longrightarrow> dev_inv w'"
proof (induction "is" arbitrary: w)
  case Nil
  then show ?case by simp
next
  case (Cons i "is")
  show ?case
  proof (cases "total (dev_info (mgr w) ! i) \<noteq> 0")
    case True
    with Cons.prems(2) obtain w1 where u: "update_dev_info (drv env) (int i) w = Inr w1"
      and r: "flush_all env is (if int i = cur_device env then bump_flush_count i w1 else w1) = Inr w'"
      by (auto split: sum.splits)
    have "dev_inv w1" using update_dev_info_inv [OF Cons.prems(1) u] .
    then have "dev_inv (if int i = cur_device env then bump_flush_count i w1 else w1)"
      by (simp add: bump_flush_count_inv)
    then show ?thesis using Cons.IH r by blast
  next
    case False
    then show ?thesis using Cons by simp
  qed
qed

lemma flush_inv:
  assumes "dev_inv w" and "flush env device w = Inr w'"
  shows "dev_inv w'"
proof (cases "device > INVALID_DEVICE \<and> nat device < length (dev_info (mgr w))")
  case True
  note rng = True
  show ?thesis
  proof (cases "total (dev_info (mgr w) ! nat device) \<noteq> 0")
    case True
    with rng assms(2) obtain w1 where u: "update_dev_info (drv env) device w = Inr w1"
      and w': "w' = bump_flush_count (nat device) w1"
      by (auto simp: flush_def split: sum.splits)
    show ?thesis unfolding w'
      by (rule bump_flush_count_inv) (rule update_dev_info_inv [OF assms(1) u])
  next
    case False
    with rng assms(2) have "w' = w" by (simp add: flush_def)
    then show ?thesis using assms(1) by simp
  qed
next
  case False
  with assms(2) have c: "flush_all env [0 ..< length (dev_info (mgr w))] (emit [GetDevice] w) = Inr w'"
    by (simp add: flush_def)
  have "dev_inv (emit [GetDevice] w)" using assms(1) by (simp add: dev_inv_def emit_def)
  then show ?thesis using c by (rule flush_all_inv)
qed

lemma lazy_init_if: "(if \<not> initialized (mgr w) then lazy_init env device w else Inr w) = lazy_init env device w"
  by (simp add: lazy_init_def)

lemma try_allocate_Inr:
  "try_allocate dc env sz device g w = Inr (b, p, s, w') \<longleftrightarrow>
    (\<exists>w0 w2. lazy_init env device w = Inr w0
       \<and> cur_device env = device \<and> cub_allocator (mgr w0) \<noteq> None
       \<and> locked_allocate dc env sz device w0 = Inr w2
       \<and> check_last_error env device w2 = Inr w'
       \<and> b = (alloc_status env = cudaSuccess) \<and> p = alloc_ptr env \<and> s = stream env)"
  by (auto simp: try_allocate_def lazy_init_if case_sum_Inr_iff)

lemma locked_allocate_inv:
  assumes "dev_inv w" and "locked_allocate dc env sz device w = Inr w'"
  shows "dev_inv w'"
proof -
  let ?w1 = "emit [Lock Shared, DeviceAllocate device sz (alloc_status env) (size_allocated env)] w"
  have 1: "dev_inv ?w1" using assms(1) by (simp add: dev_inv_emit)
  show ?thesis
  proof (cases "alloc_status env = cudaSuccess \<and> device > INVALID_DEVICE \<and> size_allocated env > 0")
    case True
    then have "account dc env device ?w1 = Inr w'" using assms(2) by (simp add: locked_allocate_def)
    then show ?thesis by (rule account_inv [OF 1])
  next
    case False
    then have "w' = ?w1" using assms(2) by (auto simp: locked_allocate_def)
    then show ?thesis using 1 by simp
  qed
qed

lemma check_last_error_inv:
  assumes "dev_inv w" and "check_last_error env device w = Inr w'"
  shows "dev_inv w'"
proof -
  let ?w3 = "emit [GetLastError (last_err env)] w"
  have 1: "dev_inv ?w3" using assms(1) by (simp add: dev_inv_emit)
  show ?thesis
  proof (cases "alloc_status env \<noteq> cudaSuccess \<or> last_err env \<noteq> cudaSuccess")
    case True
    then have "flush env device ?w3 = Inr w'" using assms(2) by (simp add: check_last_error_def)
    then show ?thesis by (rule flush_inv [OF 1])
  next
    case False
    then have "w' = ?w3" using assms(2) by (auto simp: check_last_error_def)
    then show ?thesis using 1 by simp
  qed
qed

lemma try_allocate_inv:
  assumes "dev_inv w" and "try_allocate dc env sz device g w = Inr (b, p, s, w')"
  shows "dev_inv w'"
proof -
  from assms(2) obtain w0 w2 where l: "lazy_init env device w = Inr w0"
    and a: "locked_allocate dc env sz device w0 = Inr w2"
    and f: "check_last_error env device w2 = Inr w'"
    unfolding try_allocate_Inr by blast
  show ?thesis
    by (rule check_last_error_inv [OF locked_allocate_inv [OF lazy_init_inv [OF assms(1) l] a] f])
qed

lemma GetInfo_inv:
  assumes "dev_inv w" and "GetInfo gd dr cf wu w = Inr (f, t, w')"
  shows "dev_inv w'"
proof -
  from assms(2) obtain d where
    u: "(if wu then update_dev_info dr d (emit [GetDevice] w) else Inr (emit [GetDevice] w)) = Inr w'"
    by (auto simp: GetInfo_def Let_def split: if_splits option.splits sum.splits)
  have 1: "dev_inv (emit [GetDevice] w)" using assms(1) by (simp add: dev_inv_def emit_def)
  show ?thesis
  proof (cases wu)
    case True
    then have "update_dev_info dr d (emit [GetDevice] w) = Inr w'" using u by simp
    then show ?thesis by (rule update_dev_info_inv [OF 1])
  next
    case False
    then show ?thesis using u 1 by auto
  qed
qed

lemma deallocate_cases:
  assumes "deallocate st fr p device w = Inr w'"
  shows "mgr w' = mgr w
       \<or> (p \<noteq> 0 \<and> cub_allocator (mgr w) \<noteq> None \<and> st \<noteq> cudaErrorCudartUnloading
          \<and> fst fr = cudaSuccess \<and> snd fr > 0
          \<and> 0 \<le> device \<and> nat device < length (dev_info (mgr w))
          \<and> mgr w' = (mgr w)\<lparr>dev_info := (dev_info (mgr w))[nat device :=
                (dev_info (mgr w) ! nat device)\<lparr>free := free (dev_info (mgr w) ! nat device) + snd fr\<rparr>]\<rparr>)"
proof (cases "p = 0 \<or> cub_allocator (mgr w) = None")
  case True
  then show ?thesis using assms by (auto simp: deallocate_def)
next
  case False
  note live = False
  show ?thesis
  proof (cases "st = cudaErrorCudartUnloading")
    case True
    then show ?thesis using assms live by (auto simp: deallocate_def emit_def)
  next
    case False
    then show ?thesis using assms live
      by (auto simp: deallocate_def emit_def Let_def split: if_splits)
  qed
qed

lemma deallocate_inv:
  assumes "dev_inv w" and "deallocate st fr p device w = Inr w'"
    and "credit_fits (Deallocate st fr p device) w"
  shows "dev_inv w'"
proof -
  let ?d = "nat device"
  let ?di = "dev_info (mgr w)"
  from deallocate_cases [OF assms(2)]
  consider (a) "mgr w' = mgr w"
    | (b) "p \<noteq> 0" "cub_allocator (mgr w) \<noteq> None" "st \<noteq> cudaErrorCudartUnloading"
          "0 \<le> device" "?d < length ?di"
          "mgr w' = (mgr w)\<lparr>dev_info := ?di[?d := (?di ! ?d)\<lparr>free := free (?di ! ?d) + snd fr\<rparr>]\<rparr>"
    by blast
  then show ?thesis
  proof cases
    case a
    then show ?thesis using assms(1) by (simp add: dev_inv_def)
  next
    case b
    then have fit: "unat (free (?di ! ?d)) + unat (snd fr) \<le> unat (total (?di ! ?d))"
      using assms(3) by (simp add: credit_fits_def)
    have "unat (total (?di ! ?d)) < 2 ^ 64" using unsigned_less [of "total (?di ! ?d)"] by simp
    then have "unat (free (?di ! ?d) + snd fr) = unat (free (?di ! ?d)) + unat (snd fr)"
      using fit by (simp add: unat_word_ariths)
    then have "free (?di ! ?d) + snd fr \<le> total (?di ! ?d)"
      using fit by (simp add: word_le_nat_alt)
    then have "list_all (\<lambda>x. free x \<le> total x) (?di[?d := (?di ! ?d)\<lparr>free := free (?di ! ?d) + snd fr\<rparr>])"
      using assms(1) by (intro list_all_update) (simp_all add: dev_inv_def)
    then show ?thesis by (simp add: b(6) dev_inv_def)
  qed
qed

lemma step_inv:
  assumes "dev_inv w" and "step dc c w = Inr w'" and "credit_fits c w"
  shows "dev_inv w'"
proof (cases c)
  case (Init x1 x2 x3 x4 x5)
  then have "init x1 x2 x3 x4 x5 w = Inr w'" using assms(2) by simp
  then show ?thesis by (rule init_inv [OF assms(1)])
next
  case (Try_allocate env sz device g)
  then obtain b p s where "try_allocate dc env sz device g w = Inr (b, p, s, w')"
    using assms(2) by (cases "try_allocate dc env sz device g w") auto
  then show ?thesis by (rule try_allocate_inv [OF assms(1)])
next
  case (Deallocate st fr p device)
  then have "deallocate st fr p device w = Inr w'" using assms(2) by simp
  then show ?thesis using assms(3) unfolding Deallocate by (rule deallocate_inv [OF assms(1)])
next
  case (Get_info gd dr cf wu)
  then obtain f t where "GetInfo gd dr cf wu w = Inr (f, t, w')"
    using assms(2) by (cases "GetInfo gd dr cf wu w") auto
  then show ?thesis by (rule GetInfo_inv [OF assms(1)])
next
  case (Update_dev_info dr device)
  then have "update_dev_info dr device w = Inr w'" using assms(2) by simp
  then show ?thesis by (rule update_dev_info_inv [OF assms(1)])
qed

lemma run_inv:
  "dev_inv w \<Longrightarrow> credits_fit dc cs w \<Longrightarrow> run dc cs w = Inr w' \<Longrightarrow> dev_inv w'"
proof (induction cs arbitrary: w)
  case Nil
  then show ?case by simp
next
  case (Cons c cs)
  from Cons.prems(3) obtain w1 where s: "step dc c w = Inr w1" and r: "run dc cs w1 = Inr w'"
    by (auto split: sum.splits)
  have "dev_inv w1" using step_inv [OF Cons.prems(1) s] Cons.prems(2) by simp
  moreover have "credits_fit dc cs w1" using Cons.prems(2) s by simp
  ultimately show ?case using Cons.IH r by blast
qed

subsection \<open>Counting refreshes; the balance of an estimate\<close>

lemma refreshes_emit: "refreshes (emit evs w) = refreshes w + length (filter is_refresh evs)"
  by (simp add: refreshes_def emit_def)

lemma update_dev_info_refreshes:
  assumes "update_dev_info dr d w = Inr w'"
  shows "refreshes w' = Suc (refreshes w)"
  using assms by (rule update_dev_info_cases) (simp add: refreshes_def)

lemma init_devices_refreshes:
  "init_devices dr gpus w = Inr w' \<Longrightarrow> refreshes w' = refreshes w + length gpus"
proof (induction gpus arbitrary: w)
  case Nil
  then show ?case by simp
next
  case (Cons g gs)
  from Cons.prems obtain w1 where u: "update_dev_info dr g w = Inr w1"
    and r: "init_devices dr gs
              (w1\<lparr>mgr := (mgr w1)\<lparr>update_thresholds :=
                 (update_thresholds (mgr w1))[nat g := total (dev_info (mgr w1) ! nat g)]\<rparr>\<rparr>) = Inr w'"
    by (auto simp: case_sum_Inr_iff split: if_splits)
  have "refreshes w' = refreshes (w1\<lparr>mgr := (mgr w1)\<lparr>update_thresholds :=
                 (update_thresholds (mgr w1))[nat g := total (dev_info (mgr w1) ! nat g)]\<rparr>\<rparr>) + length gs"
    using Cons.IH [OF r] .
  then show ?case using update_dev_info_refreshes [OF u] by (simp add: refreshes_def)
qed

lemma report_all_refreshes: "report_all dr gpus w = Inr w' \<Longrightarrow> refreshes w' = refreshes w"
proof (induction gpus arbitrary: w)
  case Nil
  then show ?case by simp
next
  case (Cons g gs)
  from Cons.prems obtain w1 where u: "report_dev_info dr g w = Inr w1" and r: "report_all dr gs w1 = Inr w'"
    by (auto simp: case_sum_Inr_iff)
  have "w1 = emit [Lock Shared] w"
    using u by (simp add: report_dev_info_def split: option.splits if_splits)
  then show ?case using Cons.IH [OF r] by (simp add: refreshes_emit)
qed

lemma init_refreshes:
  assumes "init c de dr gpus dbg w = Inr w'" and "\<not> initialized (mgr w)"
  shows "refreshes w' = refreshes w + length gpus"
proof -
  let ?d = "dbg \<or> de"
  let ?m2 = "(if c 0 then (mgr w)\<lparr>debug := ?d, cub_allocator :=
                 Some (CachingDeviceAllocator BIN_GROWTH MIN_BIN MAX_BIN MAX_CACHED_BYTES True ?d)\<rparr>
             else (mgr w)\<lparr>debug := ?d\<rparr>)"
  let ?w2 = "emit (CubNew ?d (c 0) # (if c 0 \<and> cub_allocator (mgr w) \<noteq> None then [CubRelease] else []))
               (w\<lparr>mgr := ?m2\<rparr>)"
  from assms obtain w3 where
    a: "init_devices dr gpus ?w2 = Inr w3"
    and b: "report_all dr gpus (w3\<lparr>mgr := (mgr w3)\<lparr>initialized := True\<rparr>\<rparr>) = Inr w'"
    by (simp add: init_def Let_def case_sum_Inr_iff split: if_splits)
  have "refreshes ?w2 = refreshes w" by (simp add: refreshes_def emit_def)
  moreover have "refreshes w3 = refreshes ?w2 + length gpus" using init_devices_refreshes [OF a] .
  moreover have "refreshes w' = refreshes (w3\<lparr>mgr := (mgr w3)\<lparr>initialized := True\<rparr>\<rparr>)"
    using report_all_refreshes [OF b] .
  ultimately show ?thesis by (simp add: refreshes_def)
qed

lemma lazy_init_refreshes:
  assumes "lazy_init env device w = Inr w'"
  shows "w' = w \<or> refreshes w < refreshes w'"
proof (cases "initialized (mgr w) \<or> lazy_scope w")
  case True
  then show ?thesis using assms by (auto simp: lazy_init_def Let_def split: if_splits)
next
  case False
  then obtain w1 dev where i: "init (ctor env) (debug_env env) (drv env) [dev] False w = Inr w1"
    and w': "w' = w1\<lparr>lazy_scope := True\<rparr>"
    using assms by (auto simp: lazy_init_def Let_def case_sum_Inr_iff)
  have "refreshes w1 = refreshes w + 1" using init_refreshes [OF i] False by simp
  then show ?thesis by (simp add: w' refreshes_def)
qed


lemma balance_emit:
  "balance d (emit evs w) = balance d w + sum_list (map (carved_by d) evs) - sum_list (map (freed_by d) evs)"
  by (simp add: balance_def carved_def freed_def emit_def)

lemma account_no_refresh:
  assumes "account dc env device w = Inr w'"
  shows "refreshes w < refreshes w'
       \<or> (refreshes w' = refreshes w \<and> calls w' = calls w
          \<and> nat device < length (dev_info (mgr w))
          \<and> dev_info (mgr w') = (dev_info (mgr w))[nat device := (dev_info (mgr w) ! nat device)
                 \<lparr>free := free (dev_info (mgr w) ! nat device) - size_allocated env\<rparr>])"
proof -
  let ?d = "nat device"
  let ?f = "free (dev_info (mgr w) ! ?d)"
  have rng: "?d < length (dev_info (mgr w)) \<and> ?d < length (update_thresholds (mgr w))"
    using assms by (simp add: account_def Let_def split: if_splits)
  show ?thesis
  proof (cases "?f < update_thresholds (mgr w) ! ?d")
    case True
    then obtain w1 where u: "update_dev_info (drv env) device w = Inr w1"
      and w': "w' = w1\<lparr>mgr := (mgr w1)\<lparr>update_thresholds :=
                 (update_thresholds (mgr w1))[?d := dc (update_thresholds (mgr w1) ! ?d)]\<rparr>\<rparr>"
      using assms rng by (auto simp: account_def Let_def case_sum_Inr_iff)
    show ?thesis using update_dev_info_refreshes [OF u] by (simp add: w' refreshes_def)
  next
    case False
    note nothr = False
    show ?thesis
    proof (cases "?f < size_allocated env")
      case True
      then have "update_dev_info (drv env) device w = Inr w'"
        using assms rng nothr by (simp add: account_def Let_def)
      then show ?thesis using update_dev_info_refreshes by simp
    next
      case False
      then have w': "w' = w\<lparr>mgr := (mgr w)\<lparr>dev_info :=
                 (dev_info (mgr w))[?d := (dev_info (mgr w) ! ?d)\<lparr>free := ?f - size_allocated env\<rparr>]\<rparr>\<rparr>"
        using assms rng nothr by (simp add: account_def Let_def)
      show ?thesis using rng by (simp add: w' refreshes_def)
    qed
  qed
qed

lemma flush_all_refreshes: "flush_all env is w = Inr w' \<Longrightarrow> refreshes w \<le> refreshes w'"
proof (induction "is" arbitrary: w)
  case Nil
  then show ?case by simp
next
  case (Cons i "is")
  show ?case
  proof (cases "total (dev_info (mgr w) ! i) \<noteq> 0")
    case True
    with Cons.prems obtain w1 where u: "update_dev_info (drv env) (int i) w = Inr w1"
      and r: "flush_all env is (if int i = cur_device env then bump_flush_count i w1 else w1) = Inr w'"
      by (auto simp: case_sum_Inr_iff)
    have "refreshes (if int i = cur_device env then bump_flush_count i w1 else w1) = Suc (refreshes w)"
      using update_dev_info_refreshes [OF u] by (simp add: bump_flush_count_def refreshes_def)
    then show ?thesis using Cons.IH [OF r] by simp
  next
    case False
    then show ?thesis using Cons by simp
  qed
qed

lemma flush_refreshes: "flush env device w = Inr w' \<Longrightarrow> refreshes w \<le> refreshes w'"
proof (cases "device > INVALID_DEVICE \<and> nat device < length (dev_info (mgr w))")
  case True
  note rng = True
  assume f: "flush env device w = Inr w'"
  show ?thesis
  proof (cases "total (dev_info (mgr w) ! nat device) \<noteq> 0")
    case True
    with rng f obtain w1 where u: "update_dev_info (drv env) device w = Inr w1"
      and w': "w' = bump_flush_count (nat device) w1"
      by (auto simp: flush_def case_sum_Inr_iff)
    show ?thesis using update_dev_info_refreshes [OF u] by (simp add: w' bump_flush_count_def refreshes_def)
  next
    case False
    with rng f show ?thesis by (simp add: flush_def)
  qed
next
  case False
  assume f: "flush env device w = Inr w'"
  then have "flush_all env [0 ..< length (dev_info (mgr w))] (emit [GetDevice] w) = Inr w'"
    by (simp add: flush_def if_not_P [OF False])
  from flush_all_refreshes [OF this] show ?thesis by (simp add: refreshes_emit)
qed

lemma check_last_error_refreshes: "check_last_error env device w = Inr w' \<Longrightarrow> refreshes w \<le> refreshes w'"
  by (cases "alloc_status env \<noteq> cudaSuccess \<or> last_err env \<noteq> cudaSuccess")
     (auto simp: check_last_error_def refreshes_emit dest!: flush_refreshes)

lemma locked_allocate_refreshes:
  assumes "locked_allocate dc env sz device w = Inr w'"
  shows "refreshes w \<le> refreshes w'"
proof (cases "alloc_status env = cudaSuccess \<and> device > INVALID_DEVICE \<and> size_allocated env > 0")
  case True
  then have "account dc env device
               (emit [Lock Shared, DeviceAllocate device sz (alloc_status env) (size_allocated env)] w) = Inr w'"
    using assms by (simp add: locked_allocate_def)
  from account_no_refresh [OF this] show ?thesis by (auto simp: refreshes_emit)
next
  case False
  then show ?thesis using assms by (auto simp: locked_allocate_def refreshes_emit)
qed

lemma locked_allocate_balance:
  assumes "locked_allocate dc env sz d w = Inr w'" and "0 \<le> d" and "nat d < length (dev_info (mgr w))"
  shows "refreshes w < refreshes w'
       \<or> (refreshes w' = refreshes w \<and> balance d w' = balance d w
          \<and> length (dev_info (mgr w')) = length (dev_info (mgr w))
          \<and> total (dev_info (mgr w') ! nat d) = total (dev_info (mgr w) ! nat d))"
proof -
  let ?ev = "[Lock Shared, DeviceAllocate d sz (alloc_status env) (size_allocated env)]"
  let ?w1 = "emit ?ev w"
  have r1: "refreshes ?w1 = refreshes w" by (simp add: refreshes_emit)
  show ?thesis
  proof (cases "alloc_status env = cudaSuccess \<and> d > INVALID_DEVICE \<and> size_allocated env > 0")
    case True
    then have a: "account dc env d ?w1 = Inr w'" using assms(1) by (simp add: locked_allocate_def)
    from account_no_refresh [OF a] show ?thesis
    proof
      assume "refreshes ?w1 < refreshes w'"
      then show ?thesis using r1 by simp
    next
      assume h: "refreshes w' = refreshes ?w1 \<and> calls w' = calls ?w1
          \<and> nat d < length (dev_info (mgr ?w1))
          \<and> dev_info (mgr w') = (dev_info (mgr ?w1))[nat d := (dev_info (mgr ?w1) ! nat d)
                 \<lparr>free := free (dev_info (mgr ?w1) ! nat d) - size_allocated env\<rparr>]"
      then have "balance d w' = balance d w"
        using True assms(3) by (simp add: balance_def carved_def freed_def emit_def)
      then show ?thesis using h r1 assms(3) by (simp add: emit_def)
    qed
  next
    case False
    then have w': "w' = ?w1" using assms(1) by (auto simp: locked_allocate_def)
    have "sum_list (map (carved_by d) ?ev) = 0" using False assms(2) by (auto simp: INVALID_DEVICE_def word_gt_0)
    then have "balance d w' = balance d w" by (simp add: w' balance_emit)
    then show ?thesis using r1 by (simp add: w' emit_def)
  qed
qed

lemma check_last_error_balance:
  assumes "check_last_error env d w = Inr w'" and "0 \<le> d" and "nat d < length (dev_info (mgr w))"
  shows "refreshes w < refreshes w'
       \<or> (refreshes w' = refreshes w \<and> balance d w' = balance d w
          \<and> length (dev_info (mgr w')) = length (dev_info (mgr w))
          \<and> total (dev_info (mgr w') ! nat d) = total (dev_info (mgr w) ! nat d))"
proof -
  let ?w3 = "emit [GetLastError (last_err env)] w"
  have r3: "refreshes ?w3 = refreshes w" by (simp add: refreshes_emit)
  have b3: "balance d ?w3 = balance d w" by (simp add: balance_emit)
  have m3: "mgr ?w3 = mgr w" by (simp add: emit_def)
  show ?thesis
  proof (cases "alloc_status env \<noteq> cudaSuccess \<or> last_err env \<noteq> cudaSuccess")
    case True
    then have f: "flush env d ?w3 = Inr w'" using assms(1) by (simp add: check_last_error_def)
    have rng: "d > INVALID_DEVICE \<and> nat d < length (dev_info (mgr ?w3))"
      using assms(2,3) by (simp add: INVALID_DEVICE_def emit_def)
    show ?thesis
    proof (cases "total (dev_info (mgr ?w3) ! nat d) \<noteq> 0")
      case True
      with rng f obtain w1 where u: "update_dev_info (drv env) d ?w3 = Inr w1"
        and w': "w' = bump_flush_count (nat d) w1"
        by (auto simp: flush_def case_sum_Inr_iff)
      have "refreshes w' = Suc (refreshes ?w3)"
        using update_dev_info_refreshes [OF u] by (simp add: w' bump_flush_count_def refreshes_def)
      then show ?thesis using r3 by simp
    next
      case False
      with rng f have "w' = ?w3" by (simp add: flush_def)
      then show ?thesis using r3 b3 m3 by simp
    qed
  next
    case False
    then have "w' = ?w3" using assms(1) by (auto simp: check_last_error_def)
    then show ?thesis using r3 b3 m3 by simp
  qed
qed


lemma try_allocate_balance:
  assumes "try_allocate dc env sz d g w = Inr (b, p, s, w')" and "0 \<le> d"
    and "nat d < length (dev_info (mgr w))"
  shows "refreshes w < refreshes w'
       \<or> (refreshes w' = refreshes w \<and> balance d w' = balance d w
          \<and> length (dev_info (mgr w')) = length (dev_info (mgr w))
          \<and> total (dev_info (mgr w') ! nat d) = total (dev_info (mgr w) ! nat d))"
proof -
  from assms(1) obtain w0 w2 where l: "lazy_init env d w = Inr w0"
    and a: "locked_allocate dc env sz d w0 = Inr w2"
    and f: "check_last_error env d w2 = Inr w'"
    unfolding try_allocate_Inr by blast
  from lazy_init_refreshes [OF l] show ?thesis
  proof
    assume w0: "w0 = w"
    from locked_allocate_balance [OF a assms(2)] assms(3) w0
    consider (r) "refreshes w < refreshes w2"
      | (k) "refreshes w2 = refreshes w" "balance d w2 = balance d w"
            "length (dev_info (mgr w2)) = length (dev_info (mgr w))"
            "total (dev_info (mgr w2) ! nat d) = total (dev_info (mgr w) ! nat d)"
      by auto
    then show ?thesis
    proof cases
      case r
      have "refreshes w2 \<le> refreshes w'"
        using f r
        by (cases "alloc_status env \<noteq> cudaSuccess \<or> last_err env \<noteq> cudaSuccess")
           (auto simp: check_last_error_def refreshes_emit dest!: flush_refreshes)
      then show ?thesis using r by simp
    next
      case k
      have "nat d < length (dev_info (mgr w2))" using k(3) assms(3) by simp
      from check_last_error_balance [OF f assms(2) this] show ?thesis using k by auto
    qed
  next
    assume "refreshes w < refreshes w0"
    moreover have "refreshes w0 \<le> refreshes w2" using a by (rule locked_allocate_refreshes)
    moreover have "refreshes w2 \<le> refreshes w'" using f by (rule check_last_error_refreshes)
    ultimately show ?thesis by simp
  qed
qed


lemma try_allocate_refreshes:
  assumes "try_allocate dc env sz d g w = Inr (b, p, s, w')"
  shows "refreshes w \<le> refreshes w'"
proof -
  from assms obtain w0 w2 where l: "lazy_init env d w = Inr w0"
    and a: "locked_allocate dc env sz d w0 = Inr w2"
    and f: "check_last_error env d w2 = Inr w'"
    unfolding try_allocate_Inr by blast
  have "refreshes w \<le> refreshes w0" using lazy_init_refreshes [OF l] by auto
  moreover have "refreshes w0 \<le> refreshes w2" using a by (rule locked_allocate_refreshes)
  moreover have "refreshes w2 \<le> refreshes w'" using f by (rule check_last_error_refreshes)
  ultimately show ?thesis by simp
qed

lemma deallocate_balance:
  assumes "deallocate st fr p d w = Inr w'" and "0 \<le> d" and "nat d < length (dev_info (mgr w))"
  shows "refreshes w' = refreshes w \<and> balance d w' = balance d w
       \<and> length (dev_info (mgr w')) = length (dev_info (mgr w))
       \<and> total (dev_info (mgr w') ! nat d) = total (dev_info (mgr w) ! nat d)"
proof (cases "p = 0 \<or> cub_allocator (mgr w) = None")
  case True
  then have "w' = w" using assms(1) by (auto simp: deallocate_def)
  then show ?thesis by simp
next
  case False
  note live = False
  show ?thesis
  proof (cases "st = cudaErrorCudartUnloading")
    case True
    then have "w' = emit [GetDevice] w" using assms(1) live by (auto simp: deallocate_def)
    then show ?thesis by (simp add: refreshes_emit balance_emit) (simp add: emit_def)
  next
    case False
    let ?w2 = "emit [Lock Shared, DeviceFree d p (fst fr) (snd fr)] (emit [GetDevice] w)"
    have ok: "fst fr = cudaSuccess"
      using assms(1) live False by (auto simp: deallocate_def Let_def split: if_splits)
    have r2: "refreshes ?w2 = refreshes w" by (simp add: refreshes_emit)
    have b2: "balance d ?w2 = balance d w - snd fr" using ok by (simp add: balance_emit)
    have m2: "mgr ?w2 = mgr w" by (simp add: emit_def)
    show ?thesis
    proof (cases "snd fr > 0")
      case True
      then have w': "w' = ?w2\<lparr>mgr := (mgr ?w2)\<lparr>dev_info := (dev_info (mgr ?w2))[nat d :=
                         (dev_info (mgr ?w2) ! nat d)\<lparr>free := free (dev_info (mgr ?w2) ! nat d) + snd fr\<rparr>]\<rparr>\<rparr>"
        using assms live False ok m2 by (auto simp: deallocate_def Let_def)
      have "balance d w' = balance d ?w2 + snd fr"
        using assms(3) by (simp add: w' balance_def carved_def freed_def emit_def)
      then have "balance d w' = balance d w" using b2 by simp
      moreover have "refreshes w' = refreshes w" using r2 by (simp add: w' refreshes_def)
      ultimately show ?thesis using assms(3) by (simp add: w' emit_def)
    next
      case False
      then have z: "snd fr = 0" by (simp add: word_gt_0)
      have "w' = ?w2" using assms(1) live \<open>st \<noteq> cudaErrorCudartUnloading\<close> ok z
        by (auto simp: deallocate_def Let_def)
      then show ?thesis using r2 b2 m2 z by simp
    qed
  qed
qed

lemma step_balance:
  assumes "step dc c w = Inr w'" and "on_device d c" and "0 \<le> d"
    and "nat d < length (dev_info (mgr w))"
  shows "refreshes w < refreshes w'
       \<or> (refreshes w' = refreshes w \<and> balance d w' = balance d w
          \<and> length (dev_info (mgr w')) = length (dev_info (mgr w))
          \<and> total (dev_info (mgr w') ! nat d) = total (dev_info (mgr w) ! nat d))"
proof (cases c)
  case (Try_allocate env sz device g)
  then have dev: "device = d" using assms(2) by (simp add: on_device_def)
  obtain b p s where "try_allocate dc env sz d g w = Inr (b, p, s, w')"
    using assms(1) Try_allocate dev by (cases "try_allocate dc env sz d g w") auto
  then show ?thesis using assms(3,4) by (rule try_allocate_balance)
next
  case (Deallocate st fr p device)
  then have dev: "device = d" using assms(2) by (simp add: on_device_def)
  have "deallocate st fr p d w = Inr w'" using assms(1) Deallocate dev by simp
  from deallocate_balance [OF this assms(3,4)] show ?thesis by simp
qed (insert assms(2), simp_all add: on_device_def)

lemma step_refreshes:
  assumes "step dc c w = Inr w'" and "on_device d c"
  shows "refreshes w \<le> refreshes w'"
proof (cases c)
  case (Try_allocate env sz device g)
  obtain b p s where "try_allocate dc env sz device g w = Inr (b, p, s, w')"
    using assms(1) Try_allocate by (cases "try_allocate dc env sz device g w") auto
  then show ?thesis by (rule try_allocate_refreshes)
next
  case (Deallocate st fr p device)
  then have "deallocate st fr p device w = Inr w'" using assms(1) by simp
  then show ?thesis
    by (auto simp: deallocate_def Let_def refreshes_emit refreshes_def emit_def split: if_splits)
qed (insert assms(2), simp_all add: on_device_def)

lemma run_refreshes:
  "run dc cs w = Inr w' \<Longrightarrow> list_all (on_device d) cs \<Longrightarrow> refreshes w \<le> refreshes w'"
proof (induction cs arbitrary: w)
  case Nil
  then show ?case by simp
next
  case (Cons c cs)
  from Cons.prems(1) obtain w1 where s: "step dc c w = Inr w1" and r: "run dc cs w1 = Inr w'"
    by (auto simp: case_sum_Inr_iff)
  have oc: "on_device d c" and ocs: "list_all (on_device d) cs" using Cons.prems(2) by simp_all
  have "refreshes w \<le> refreshes w1" using step_refreshes [OF s oc] .
  moreover have "refreshes w1 \<le> refreshes w'" using Cons.IH [OF r ocs] .
  ultimately show ?case by simp
qed

lemma run_balance:
  "run dc cs w = Inr w' \<Longrightarrow> list_all (on_device d) cs \<Longrightarrow> 0 \<le> d
   \<Longrightarrow> nat d < length (dev_info (mgr w)) \<Longrightarrow> refreshes w' = refreshes w
   \<Longrightarrow> balance d w' = balance d w
       \<and> length (dev_info (mgr w')) = length (dev_info (mgr w))
       \<and> total (dev_info (mgr w') ! nat d) = total (dev_info (mgr w) ! nat d)"
proof (induction cs arbitrary: w)
  case Nil
  then show ?case by simp
next
  case (Cons c cs)
  from Cons.prems(1) obtain w1 where s: "step dc c w = Inr w1" and r: "run dc cs w1 = Inr w'"
    by (auto simp: case_sum_Inr_iff)
  have oc: "on_device d c" and ocs: "list_all (on_device d) cs" using Cons.prems(2) by simp_all
  have m1: "refreshes w \<le> refreshes w1" using step_refreshes [OF s oc] .
  have m2: "refreshes w1 \<le> refreshes w'" using run_refreshes [OF r ocs] .
  have e1: "refreshes w1 = refreshes w" and e2: "refreshes w' = refreshes w1"
    using m1 m2 Cons.prems(5) by simp_all
  from step_balance [OF s oc Cons.prems(3,4)] e1
  have k: "balance d w1 = balance d w" "length (dev_info (mgr w1)) = length (dev_info (mgr w))"
          "total (dev_info (mgr w1) ! nat d) = total (dev_info (mgr w) ! nat d)"
    by auto
  have "nat d < length (dev_info (mgr w1))" using k(2) Cons.prems(4) by simp
  from Cons.IH [OF r ocs Cons.prems(3) this e2] show ?case using k by simp
qed

subsection \<open>Evaluating the scenarios\<close>

lemmas scenario_defs = world0_def world1_def world_decayed_def world_held_def
  drv_idle_def drv_900_def drv_950_def drv_20_def drv_props_950_def drv_props_900_def cached_none_def
  ctor_ok_def ctor_fails_first_def cub0_def env_carve_def cached_50_def workspace0_def
  Manager_ctor_def DevInfo0_def
  BIN_GROWTH_def MIN_BIN_def MAX_BIN_def MAX_CACHED_BYTES_def INITIAL_PINNED_BYTES_def INVALID_DEVICE_def

lemmas op_defs = emit_def resize_def update_dev_info_def report_dev_info_def init_def
  lazy_init_def account_def bump_flush_count_def flush_def locked_allocate_def check_last_error_def
  try_allocate_def deallocate_def GetInfo_def release_def try_reserve_def
  resize_buffers_def pinned_buffer_def emplace_def host_buffer_cleaner_def thread_pinned_buffer_def
  thread_exit_def thread_pool0_def reset_def Manager_dtor_def Let_def

lemma world1_reached: "init ctor_ok False drv_idle [0] False world0 = Inr world1"
  by (simp add: scenario_defs op_defs)

lemma mul_0_9F_1000: "mul_0_9F 1000 = 900"
  by (simp add: mul_0_9F_def round_to_float_def bit_length.simps Let_def)

lemma mul_0_9F_900: "mul_0_9F 900 = 810"
  by (simp add: mul_0_9F_def round_to_float_def bit_length.simps Let_def)

lemma world_decayed_reached:
  "run mul_0_9F [Try_allocate (env_carve 10 drv_idle) 10 0 0,
                 Try_allocate (env_carve 10 drv_950) 10 0 0] world1 = Inr world_decayed"
  by (simp add: scenario_defs op_defs mul_0_9F_1000)

lemma world_held_reached:
  "run mul_0_9F [Init ctor_ok False drv_props_950 [0] False,
                 Try_allocate (env_carve 50 drv_props_950) 50 0 0,
                 Get_info (Some 0) drv_props_900 cached_none True] world0 = Inr world_held"
  by (simp add: scenario_defs op_defs)

subsection \<open>Auxiliary facts for the claims\<close>

lemma clamp_sum:
  fixes a b t :: size_t
  shows "(if a + b > t then t else a + b) \<le> t
       \<and> (unat a + unat b < 2 ^ 64 \<longrightarrow>
            unat (if a + b > t then t else a + b) = min (unat t) (unat a + unat b))"
proof -
  have "unat a + unat b < 2 ^ 64 \<Longrightarrow> unat (a + b) = unat a + unat b"
    by (simp add: unat_word_ariths)
  then show ?thesis
    by (auto simp: word_less_nat_alt word_le_nat_alt)
qed

lemma GetInfo_read:
  assumes "cub_allocator (mgr w) \<noteq> None" and "0 \<le> d" and "nat d < length (dev_info (mgr w1))"
    and "(if with_update then update_dev_info dr d (emit [GetDevice] w) else Inr (emit [GetDevice] w)) = Inr w1"
  shows "GetInfo (Some d) dr cf with_update w
           = Inr (if free (dev_info (mgr w1) ! nat d) + cf d > total (dev_info (mgr w1) ! nat d)
                  then total (dev_info (mgr w1) ! nat d)
                  else free (dev_info (mgr w1) ! nat d) + cf d,
                  total (dev_info (mgr w1) ! nat d), w1)"
  using assms(1,2,3) by (simp add: GetInfo_def assms(4) Let_def)

lemma update_dev_info_in_range:
  assumes "update_dev_info dr d w = Inr w'" and "nat d < length (dev_info (mgr w))"
  shows "\<exists>r. dr d = Some r
           \<and> w' = w\<lparr>mgr := (mgr w)\<lparr>dev_info := (dev_info (mgr w))[nat d := (dev_info (mgr w) ! nat d)
                        \<lparr>free := min (min (totalGlobalMem r) (mem_total r)) (mem_free r),
                         total := min (totalGlobalMem r) (mem_total r)\<rparr>]\<rparr>,
                     calls := calls w @ [MemGetInfo d]\<rparr>"
  using assms(1)
proof (rule update_dev_info_cases)
  fix r :: mem_reply and t di
  assume "dr d = Some r" and "t = min (totalGlobalMem r) (mem_total r)"
    and "di = (if nat d + 1 > length (dev_info (mgr w)) then resize (nat d + 1) DevInfo0 (dev_info (mgr w))
               else dev_info (mgr w))"
    and "w' = w\<lparr>mgr := (mgr w)\<lparr>dev_info := di[nat d := (di ! nat d)\<lparr>free := min t (mem_free r), total := t\<rparr>]\<rparr>,
               calls := calls w @ [MemGetInfo d]\<rparr>"
  then show ?thesis using assms(2) by simp
qed






section \<open>The claims\<close>

subsection \<open>C1: the invariant \<open>free \<le> total\<close>\<close>

text \<open>
  C1, as stated, fails: \<open>deallocate\<close> adds the byte count the cache reports to the
  estimate and does not compare the sum with the total. On a device whose properties
  report 900 bytes while \<open>cudaMemGetInfo\<close> reports 1000: \<open>init\<close> sets the estimate to 900
  of 900; an allocation carves 50 bytes (estimate 850); a \<open>GetInfo\<close> with refresh reads
  900 free bytes (estimate 900 of 900); the \<open>deallocate\<close> of the 50-byte block then
  leaves \<open>free = 950\<close> above \<open>total = 900\<close>.
\<close>

theorem credit_breaks_invariant_cex:
  "run mul_0_9F [Init ctor_ok False drv_props_950 [0] False,
                 Try_allocate (env_carve 50 drv_props_950) 50 0 0,
                 Get_info (Some 0) drv_props_900 cached_none True,
                 Deallocate cudaSuccess (cudaSuccess, 50) 4096 0] world0
     = Inr (world_held\<lparr>mgr := (mgr world_held)\<lparr>dev_info := [\<lparr>free = 950, total = 900, flush_count = 0\<rparr>]\<rparr>,
                       calls := calls world_held @ [GetDevice, Lock Shared, DeviceFree 0 4096 cudaSuccess 50]\<rparr>)
   \<and> \<not> dev_inv (world_held\<lparr>mgr := (mgr world_held)\<lparr>dev_info := [\<lparr>free = 950, total = 900, flush_count = 0\<rparr>]\<rparr>,
                       calls := calls world_held @ [GetDevice, Lock Shared, DeviceFree 0 4096 cudaSuccess 50]\<rparr>)"
  by (simp add: scenario_defs op_defs dev_inv_def)

text \<open>
  C1, amended: the invariant \<open>free \<le> total\<close> on every device holds for a freshly
  constructed manager, holds for device \<open>d\<close> after every \<open>update_dev_info(d)\<close> that
  returns, and is preserved by every sequence of \<open>init\<close>, \<open>try_allocate\<close>,
  \<open>deallocate\<close>, \<open>GetInfo\<close> and \<open>update_dev_info\<close> calls in which every credit of
  a \<open>deallocate\<close> fits, that is, \<open>free + size_deallocated \<le> total\<close> at the moment of the
  credit.
\<close>

theorem free_le_total_preserved:
  "(dev_inv w \<and> credits_fit dc cs w \<and> run dc cs w = Inr w' \<longrightarrow> dev_inv w')
   \<and> (update_dev_info dr d w = Inr w'' \<longrightarrow>
        nat d < length (dev_info (mgr w''))
        \<and> free (dev_info (mgr w'') ! nat d) \<le> total (dev_info (mgr w'') ! nat d))
   \<and> dev_inv \<lparr>mgr = Manager_ctor n, calls = [], lazy_scope = False\<rparr>"
proof -
  have "dev_inv \<lparr>mgr = Manager_ctor n, calls = [], lazy_scope = False\<rparr>"
    by (simp add: dev_inv_def Manager_ctor_def DevInfo0_def list_all_iff)
  then show ?thesis
    using run_inv update_dev_info_at by blast
qed

theorem free_le_total_preserved_witness:
  "dev_inv world0
   \<and> credits_fit mul_0_9F [Init ctor_ok False drv_idle [0] False,
                           Try_allocate (env_carve 100 drv_idle) 100 0 0,
                           Deallocate cudaSuccess (cudaSuccess, 100) 4096 0] world0
   \<and> run mul_0_9F [Init ctor_ok False drv_idle [0] False,
                    Try_allocate (env_carve 100 drv_idle) 100 0 0,
                    Deallocate cudaSuccess (cudaSuccess, 100) 4096 0] world0
       = Inr (world1\<lparr>calls := calls world1
                       @ [Lock Shared, DeviceAllocate 0 100 cudaSuccess 100, GetLastError cudaSuccess,
                          GetDevice, Lock Shared, DeviceFree 0 4096 cudaSuccess 100]\<rparr>)
   \<and> dev_inv (world1\<lparr>calls := calls world1
                       @ [Lock Shared, DeviceAllocate 0 100 cudaSuccess 100, GetLastError cudaSuccess,
                          GetDevice, Lock Shared, DeviceFree 0 4096 cudaSuccess 100]\<rparr>)
   \<and> update_dev_info drv_900 0 world0
       = Inr (world0\<lparr>mgr := (mgr world0)\<lparr>dev_info := [\<lparr>free = 900, total = 1000, flush_count = 0\<rparr>]\<rparr>,
                     calls := [MemGetInfo 0]\<rparr>)"
proof -
  let ?cs = "[Init ctor_ok False drv_idle [0] False,
              Try_allocate (env_carve 100 drv_idle) 100 0 0,
              Deallocate cudaSuccess (cudaSuccess, 100) 4096 0]"
  let ?w = "world1\<lparr>calls := calls world1
                       @ [Lock Shared, DeviceAllocate 0 100 cudaSuccess 100, GetLastError cudaSuccess,
                          GetDevice, Lock Shared, DeviceFree 0 4096 cudaSuccess 100]\<rparr>"
  have i: "dev_inv world0" by (simp add: scenario_defs dev_inv_def)
  have r: "run mul_0_9F ?cs world0 = Inr ?w"
    by (simp add: scenario_defs op_defs)
  have c: "credits_fit mul_0_9F ?cs world0"
    by (simp add: scenario_defs op_defs credit_fits_def)
  have u: "update_dev_info drv_900 0 world0
       = Inr (world0\<lparr>mgr := (mgr world0)\<lparr>dev_info := [\<lparr>free = 900, total = 1000, flush_count = 0\<rparr>]\<rparr>,
                     calls := [MemGetInfo 0]\<rparr>)"
    by (simp add: scenario_defs op_defs)
  show ?thesis
    using i r c u free_le_total_preserved [of world0 mul_0_9F ?cs ?w drv_900 0 _ 1]
    by simp
qed

subsection \<open>C2: the estimate between refreshes\<close>

text \<open>
  C2, as stated, fails: nothing clamps the estimate. In \<open>world_held\<close> the estimate is 900
  of 900 bytes and a block of 50 bytes is held; its \<open>deallocate\<close>, a sequence of one call
  with no refresh, gives the estimate 950, where the clamped formula of the
  specification gives 900.
\<close>

theorem estimate_not_clamped_cex:
  "run mul_0_9F [Deallocate cudaSuccess (cudaSuccess, 50) 4096 0] world_held
     = Inr (world_held\<lparr>mgr := (mgr world_held)\<lparr>dev_info := [\<lparr>free = 950, total = 900, flush_count = 0\<rparr>]\<rparr>,
                       calls := calls world_held @ [GetDevice, Lock Shared, DeviceFree 0 4096 cudaSuccess 50]\<rparr>)
   \<and> refreshes (world_held\<lparr>mgr := (mgr world_held)\<lparr>dev_info := [\<lparr>free = 950, total = 900, flush_count = 0\<rparr>]\<rparr>,
                       calls := calls world_held @ [GetDevice, Lock Shared, DeviceFree 0 4096 cudaSuccess 50]\<rparr>)
       = refreshes world_held
   \<and> spec_clamped_estimate 900 0 50 900 = 900"
  by (simp add: scenario_defs op_defs spec_clamped_estimate_def refreshes_def)

text \<open>
  C2, amended: for every device \<open>d\<close> with an entry in the table and every sequence of
  \<open>try_allocate\<close> and \<open>deallocate\<close> calls on \<open>d\<close> that returns and makes no driver
  refresh, the final estimate equals the initial estimate minus the bytes carved plus
  the bytes freed during the sequence, in 64-bit wrap-around arithmetic and without
  any clamping; the total is unchanged.
\<close>

theorem estimate_unclamped:
  assumes "run dc cs w = Inr w'" and "list_all (on_device d) cs" and "0 \<le> d"
    and "nat d < length (dev_info (mgr w))" and "refreshes w' = refreshes w"
  shows "free (dev_info (mgr w') ! nat d)
           = free (dev_info (mgr w) ! nat d) - (carved d w' - carved d w) + (freed d w' - freed d w)
       \<and> total (dev_info (mgr w') ! nat d) = total (dev_info (mgr w) ! nat d)"
proof -
  from run_balance [OF assms]
  have "balance d w' = balance d w"
    and t: "total (dev_info (mgr w') ! nat d) = total (dev_info (mgr w) ! nat d)"
    by simp_all
  then have "free (dev_info (mgr w') ! nat d) + carved d w' - freed d w'
           = free (dev_info (mgr w) ! nat d) + carved d w - freed d w"
    by (simp add: balance_def)
  then have "free (dev_info (mgr w') ! nat d)
           = free (dev_info (mgr w) ! nat d) - (carved d w' - carved d w) + (freed d w' - freed d w)"
    by (simp add: algebra_simps)
  then show ?thesis using t by simp
qed

theorem estimate_unclamped_witness:
  "run mul_0_9F [Try_allocate (env_carve 10 drv_idle) 10 0 0,
                 Deallocate cudaSuccess (cudaSuccess, 10) 4096 0] world1
     = Inr (world1\<lparr>calls := calls world1
                           @ [Lock Shared, DeviceAllocate 0 10 cudaSuccess 10, GetLastError cudaSuccess,
                              GetDevice, Lock Shared, DeviceFree 0 4096 cudaSuccess 10]\<rparr>)
   \<and> (1000 :: size_t) = 1000 - (10 - 0) + (10 - 0)"
proof -
  let ?cs = "[Try_allocate (env_carve 10 drv_idle) 10 0 0,
              Deallocate cudaSuccess (cudaSuccess, 10) 4096 0]"
  let ?w = "world1\<lparr>calls := calls world1
                           @ [Lock Shared, DeviceAllocate 0 10 cudaSuccess 10, GetLastError cudaSuccess,
                              GetDevice, Lock Shared, DeviceFree 0 4096 cudaSuccess 10]\<rparr>"
  have r: "run mul_0_9F ?cs world1 = Inr ?w"
    by (simp add: scenario_defs op_defs)
  have o: "list_all (on_device 0) ?cs" by (simp add: on_device_def)
  have p: "(0 :: int) \<le> 0" by simp
  have l: "nat 0 < length (dev_info (mgr world1))" by (simp add: world1_def)
  have e: "refreshes ?w = refreshes world1" by (simp add: refreshes_def world1_def)
  show ?thesis
    using r estimate_unclamped [OF r o p l e]
    by (simp add: carved_def freed_def world1_def)
qed

subsection \<open>C3: when the threshold decays\<close>

text \<open>
  C3, as stated, fails in its second case: when the estimate is not below the threshold
  but the carved amount exceeds the estimate, the code refreshes and leaves the
  threshold as it is. In \<open>world_decayed\<close> the estimate is 950 and the threshold 900; an
  allocation that carves 960 bytes (the other process has released its memory) makes
  the code refresh, and the threshold is still 900, not \<open>0.9 * 900 = 810\<close>.
\<close>

theorem no_decay_on_stale_estimate_cex:
  "try_allocate mul_0_9F (env_carve 960 drv_20) 960 0 0 world_decayed
     = Inr (True, 4096, 7,
            world_decayed\<lparr>mgr := (mgr world_decayed)\<lparr>dev_info := [\<lparr>free = 20, total = 1000, flush_count = 0\<rparr>],
                                                     update_thresholds := [900]\<rparr>,
                         calls := calls world_decayed
                                  @ [Lock Shared, DeviceAllocate 0 960 cudaSuccess 960, MemGetInfo 0,
                                     GetLastError cudaSuccess]\<rparr>)
   \<and> mul_0_9F 900 = 810"
  by (simp add: scenario_defs op_defs mul_0_9F_900)

text \<open>
  C3, amended: for every successful \<open>try_allocate\<close> on an initialised manager and a
  valid device that carved fresh bytes, the locked block ends as follows: if the
  estimate is below the threshold, the device info is refreshed from the driver and the
  threshold is decayed; otherwise, if the carved amount exceeds the estimate, the
  device info is refreshed and the threshold is unchanged; otherwise the estimate is
  debited by the carved amount, the threshold is unchanged and the driver is not
  queried. After the lock is released the threshold is not touched again. If the
  driver has no pending error, nothing else changes; if it has one and the total of the
  device is not zero, the device info is refreshed once more and its flush counter is
  incremented; if it has one and the total is zero, nothing else changes.
\<close>

theorem try_allocate_accounting:
  assumes "try_allocate dc env sz device g w = Inr (True, p, s, w')"
    and "initialized (mgr w)" and "size_allocated env > 0"
    and "device > INVALID_DEVICE"
  shows "0 \<le> device \<and> nat device < length (dev_info (mgr w))
       \<and> nat device < length (update_thresholds (mgr w))
       \<and> (\<exists>w2. locked_allocate dc env sz device w = Inr w2
            \<and> (if free (dev_info (mgr w) ! nat device) < update_thresholds (mgr w) ! nat device then
                 (\<exists>r. drv env device = Some r
                    \<and> dev_info (mgr w2) = (dev_info (mgr w))[nat device := (dev_info (mgr w) ! nat device)
                         \<lparr>free := min (min (totalGlobalMem r) (mem_total r)) (mem_free r),
                          total := min (totalGlobalMem r) (mem_total r)\<rparr>])
                 \<and> update_thresholds (mgr w2) = (update_thresholds (mgr w))
                         [nat device := dc (update_thresholds (mgr w) ! nat device)]
                 \<and> calls w2 = calls w @ [Lock Shared, DeviceAllocate device sz cudaSuccess (size_allocated env),
                                          MemGetInfo device]
               else if free (dev_info (mgr w) ! nat device) < size_allocated env then
                 (\<exists>r. drv env device = Some r
                    \<and> dev_info (mgr w2) = (dev_info (mgr w))[nat device := (dev_info (mgr w) ! nat device)
                         \<lparr>free := min (min (totalGlobalMem r) (mem_total r)) (mem_free r),
                          total := min (totalGlobalMem r) (mem_total r)\<rparr>])
                 \<and> update_thresholds (mgr w2) = update_thresholds (mgr w)
                 \<and> calls w2 = calls w @ [Lock Shared, DeviceAllocate device sz cudaSuccess (size_allocated env),
                                          MemGetInfo device]
               else
                 dev_info (mgr w2) = (dev_info (mgr w))[nat device := (dev_info (mgr w) ! nat device)
                         \<lparr>free := free (dev_info (mgr w) ! nat device) - size_allocated env\<rparr>]
                 \<and> update_thresholds (mgr w2) = update_thresholds (mgr w)
                 \<and> calls w2 = calls w @ [Lock Shared, DeviceAllocate device sz cudaSuccess (size_allocated env)])
            \<and> update_thresholds (mgr w') = update_thresholds (mgr w2)
            \<and> (if last_err env = cudaSuccess then
                 dev_info (mgr w') = dev_info (mgr w2)
                 \<and> calls w' = calls w2 @ [GetLastError cudaSuccess]
               else if total (dev_info (mgr w2) ! nat device) \<noteq> 0 then
                 (\<exists>r. drv env device = Some r
                    \<and> dev_info (mgr w') = (dev_info (mgr w2))[nat device := (dev_info (mgr w2) ! nat device)
                         \<lparr>free := min (min (totalGlobalMem r) (mem_total r)) (mem_free r),
                          total := min (totalGlobalMem r) (mem_total r),
                          flush_count := flush_count (dev_info (mgr w2) ! nat device) + 1\<rparr>])
                 \<and> calls w' = calls w2 @ [GetLastError (last_err env), MemGetInfo device]
               else
                 dev_info (mgr w') = dev_info (mgr w2)
                 \<and> calls w' = calls w2 @ [GetLastError (last_err env)]))"
proof -
  let ?d = "nat device"
  let ?w1 = "emit [Lock Shared, DeviceAllocate device sz cudaSuccess (size_allocated env)] w"
  from assms(1) obtain w0 w2 where l: "lazy_init env device w = Inr w0"
    and a: "locked_allocate dc env sz device w0 = Inr w2"
    and f: "check_last_error env device w2 = Inr w'"
    and ok: "alloc_status env = cudaSuccess"
    unfolding try_allocate_Inr by blast
  have w0: "w0 = w" using l assms(2) by (simp add: lazy_init_def)
  have a': "locked_allocate dc env sz device w = Inr w2" using a w0 by simp
  have acc: "account dc env device ?w1 = Inr w2"
    using a ok assms(3,4) w0 by (simp add: locked_allocate_def Let_def)
  have pos: "0 \<le> device" using assms(4) by (simp add: INVALID_DEVICE_def)
  have m1: "mgr ?w1 = mgr w"
    and c1: "calls ?w1 = calls w @ [Lock Shared, DeviceAllocate device sz cudaSuccess (size_allocated env)]"
    by (simp_all add: emit_def)
  have rng: "?d < length (dev_info (mgr w)) \<and> ?d < length (update_thresholds (mgr w))"
    using acc by (simp add: account_def Let_def emit_def split: if_splits)
  have split: "(if free (dev_info (mgr w) ! ?d) < update_thresholds (mgr w) ! ?d then
                 (\<exists>r. drv env device = Some r
                    \<and> dev_info (mgr w2) = (dev_info (mgr w))[?d := (dev_info (mgr w) ! ?d)
                         \<lparr>free := min (min (totalGlobalMem r) (mem_total r)) (mem_free r),
                          total := min (totalGlobalMem r) (mem_total r)\<rparr>])
                 \<and> update_thresholds (mgr w2) = (update_thresholds (mgr w))
                         [?d := dc (update_thresholds (mgr w) ! ?d)]
                 \<and> calls w2 = calls w @ [Lock Shared, DeviceAllocate device sz cudaSuccess (size_allocated env),
                                          MemGetInfo device]
               else if free (dev_info (mgr w) ! ?d) < size_allocated env then
                 (\<exists>r. drv env device = Some r
                    \<and> dev_info (mgr w2) = (dev_info (mgr w))[?d := (dev_info (mgr w) ! ?d)
                         \<lparr>free := min (min (totalGlobalMem r) (mem_total r)) (mem_free r),
                          total := min (totalGlobalMem r) (mem_total r)\<rparr>])
                 \<and> update_thresholds (mgr w2) = update_thresholds (mgr w)
                 \<and> calls w2 = calls w @ [Lock Shared, DeviceAllocate device sz cudaSuccess (size_allocated env),
                                          MemGetInfo device]
               else
                 dev_info (mgr w2) = (dev_info (mgr w))[?d := (dev_info (mgr w) ! ?d)
                         \<lparr>free := free (dev_info (mgr w) ! ?d) - size_allocated env\<rparr>]
                 \<and> update_thresholds (mgr w2) = update_thresholds (mgr w)
                 \<and> calls w2 = calls w @ [Lock Shared, DeviceAllocate device sz cudaSuccess (size_allocated env)])"
  proof (cases "free (dev_info (mgr w) ! ?d) < update_thresholds (mgr w) ! ?d")
    case True
    then obtain w3 where u: "update_dev_info (drv env) device ?w1 = Inr w3"
      and w2: "w2 = w3\<lparr>mgr := (mgr w3)\<lparr>update_thresholds :=
                 (update_thresholds (mgr w3))[?d := dc (update_thresholds (mgr w3) ! ?d)]\<rparr>\<rparr>"
      using acc rng m1 by (auto simp: account_def Let_def case_sum_Inr_iff)
    from update_dev_info_in_range [OF u] rng m1 obtain r where
      r: "drv env device = Some r"
      and w3: "w3 = ?w1\<lparr>mgr := (mgr ?w1)\<lparr>dev_info := (dev_info (mgr ?w1))[?d := (dev_info (mgr ?w1) ! ?d)
                        \<lparr>free := min (min (totalGlobalMem r) (mem_total r)) (mem_free r),
                         total := min (totalGlobalMem r) (mem_total r)\<rparr>]\<rparr>,
                     calls := calls ?w1 @ [MemGetInfo device]\<rparr>"
      by auto
    show ?thesis using True r by (simp add: w2 w3 emit_def)
  next
    case False
    note nothr = False
    show ?thesis
    proof (cases "free (dev_info (mgr w) ! ?d) < size_allocated env")
      case True
      then have u: "update_dev_info (drv env) device ?w1 = Inr w2"
        using acc rng nothr m1 by (simp add: account_def Let_def)
      from update_dev_info_in_range [OF u] rng m1 obtain r where
        r: "drv env device = Some r"
        and w2: "w2 = ?w1\<lparr>mgr := (mgr ?w1)\<lparr>dev_info := (dev_info (mgr ?w1))[?d := (dev_info (mgr ?w1) ! ?d)
                        \<lparr>free := min (min (totalGlobalMem r) (mem_total r)) (mem_free r),
                         total := min (totalGlobalMem r) (mem_total r)\<rparr>]\<rparr>,
                     calls := calls ?w1 @ [MemGetInfo device]\<rparr>"
        by auto
      show ?thesis using True nothr r by (simp add: w2 emit_def)
    next
      case False
      then have w2: "w2 = ?w1\<lparr>mgr := (mgr ?w1)\<lparr>dev_info :=
                 (dev_info (mgr ?w1))[?d := (dev_info (mgr ?w1) ! ?d)
                    \<lparr>free := free (dev_info (mgr ?w1) ! ?d) - size_allocated env\<rparr>]\<rparr>\<rparr>"
        using acc rng nothr m1 by (simp add: account_def Let_def)
      show ?thesis using False nothr by (simp add: w2 emit_def)
    qed
  qed
  have len2: "length (dev_info (mgr w2)) = length (dev_info (mgr w))"
    using split by (auto split: if_splits)
  then have rng2: "?d < length (dev_info (mgr w2))" using rng by simp
  let ?w3 = "emit [GetLastError (last_err env)] w2"
  have m3: "mgr ?w3 = mgr w2" and c3: "calls ?w3 = calls w2 @ [GetLastError (last_err env)]"
    by (simp_all add: emit_def)
  have final: "update_thresholds (mgr w') = update_thresholds (mgr w2)
            \<and> (if last_err env = cudaSuccess then
                 dev_info (mgr w') = dev_info (mgr w2)
                 \<and> calls w' = calls w2 @ [GetLastError cudaSuccess]
               else if total (dev_info (mgr w2) ! ?d) \<noteq> 0 then
                 (\<exists>r. drv env device = Some r
                    \<and> dev_info (mgr w') = (dev_info (mgr w2))[?d := (dev_info (mgr w2) ! ?d)
                         \<lparr>free := min (min (totalGlobalMem r) (mem_total r)) (mem_free r),
                          total := min (totalGlobalMem r) (mem_total r),
                          flush_count := flush_count (dev_info (mgr w2) ! ?d) + 1\<rparr>])
                 \<and> calls w' = calls w2 @ [GetLastError (last_err env), MemGetInfo device]
               else
                 dev_info (mgr w') = dev_info (mgr w2)
                 \<and> calls w' = calls w2 @ [GetLastError (last_err env)])"
  proof (cases "last_err env = cudaSuccess")
    case True
    then have "w' = ?w3" using f ok by (simp add: check_last_error_def)
    then show ?thesis using True by (simp add: emit_def)
  next
    case False
    then have fl: "flush env device ?w3 = Inr w'" using f by (simp add: check_last_error_def)
    have rng3: "device > INVALID_DEVICE \<and> ?d < length (dev_info (mgr ?w3))"
      using assms(4) rng2 m3 by simp
    show ?thesis
    proof (cases "total (dev_info (mgr w2) ! ?d) \<noteq> 0")
      case True
      then obtain w4 where u: "update_dev_info (drv env) device ?w3 = Inr w4"
        and w': "w' = bump_flush_count ?d w4"
        using fl rng3 m3 by (auto simp: flush_def case_sum_Inr_iff)
      from update_dev_info_in_range [OF u] rng3 obtain r where
        r: "drv env device = Some r"
        and w4: "w4 = ?w3\<lparr>mgr := (mgr ?w3)\<lparr>dev_info := (dev_info (mgr ?w3))[?d := (dev_info (mgr ?w3) ! ?d)
                        \<lparr>free := min (min (totalGlobalMem r) (mem_total r)) (mem_free r),
                         total := min (totalGlobalMem r) (mem_total r)\<rparr>]\<rparr>,
                     calls := calls ?w3 @ [MemGetInfo device]\<rparr>"
        by auto
      show ?thesis using True False r rng2
        by (simp add: w' w4 bump_flush_count_def emit_def)
    next
      case False
      then have "w' = ?w3" using fl rng3 m3 by (simp add: flush_def)
      then show ?thesis using False \<open>last_err env \<noteq> cudaSuccess\<close> by (simp add: emit_def)
    qed
  qed
  show ?thesis using pos rng a' split final by blast
qed

theorem try_allocate_accounting_witness:
  "try_allocate mul_0_9F (env_carve 50 drv_900) 50 0 0
      (world1\<lparr>mgr := (mgr world1)\<lparr>dev_info := [\<lparr>free = 900, total = 1000, flush_count = 0\<rparr>]\<rparr>\<rparr>)
     = Inr (True, 4096, 7,
            world1\<lparr>mgr := (mgr world1)\<lparr>dev_info := [\<lparr>free = 900, total = 1000, flush_count = 0\<rparr>],
                                           update_thresholds := [900]\<rparr>,
                   calls := calls world1 @ [Lock Shared, DeviceAllocate 0 50 cudaSuccess 50, MemGetInfo 0,
                                            GetLastError cudaSuccess]\<rparr>)
   \<and> try_allocate mul_0_9F (env_carve 100 drv_idle) 100 0 0 world1
     = Inr (True, 4096, 7,
            world1\<lparr>mgr := (mgr world1)\<lparr>dev_info := [\<lparr>free = 900, total = 1000, flush_count = 0\<rparr>]\<rparr>,
                   calls := calls world1 @ [Lock Shared, DeviceAllocate 0 100 cudaSuccess 100,
                                            GetLastError cudaSuccess]\<rparr>)
   \<and> try_allocate mul_0_9F ((env_carve 100 drv_900)\<lparr>last_err := cudaErrorMemoryAllocation\<rparr>) 100 0 0 world1
     = Inr (True, 4096, 7,
            world1\<lparr>mgr := (mgr world1)\<lparr>dev_info := [\<lparr>free = 900, total = 1000, flush_count = 1\<rparr>]\<rparr>,
                   calls := calls world1 @ [Lock Shared, DeviceAllocate 0 100 cudaSuccess 100,
                                            GetLastError cudaErrorMemoryAllocation, MemGetInfo 0]\<rparr>)"
proof -
  have a: "try_allocate mul_0_9F (env_carve 50 drv_900) 50 0 0
      (world1\<lparr>mgr := (mgr world1)\<lparr>dev_info := [\<lparr>free = 900, total = 1000, flush_count = 0\<rparr>]\<rparr>\<rparr>)
     = Inr (True, 4096, 7,
            world1\<lparr>mgr := (mgr world1)\<lparr>dev_info := [\<lparr>free = 900, total = 1000, flush_count = 0\<rparr>],
                                           update_thresholds := [900]\<rparr>,
                   calls := calls world1 @ [Lock Shared, DeviceAllocate 0 50 cudaSuccess 50, MemGetInfo 0,
                                            GetLastError cudaSuccess]\<rparr>)"
    by (simp add: scenario_defs op_defs mul_0_9F_1000)
  have b: "try_allocate mul_0_9F (env_carve 100 drv_idle) 100 0 0 world1
     = Inr (True, 4096, 7,
            world1\<lparr>mgr := (mgr world1)\<lparr>dev_info := [\<lparr>free = 900, total = 1000, flush_count = 0\<rparr>]\<rparr>,
                   calls := calls world1 @ [Lock Shared, DeviceAllocate 0 100 cudaSuccess 100,
                                            GetLastError cudaSuccess]\<rparr>)"
    by (simp add: scenario_defs op_defs)
  have c: "try_allocate mul_0_9F ((env_carve 100 drv_900)\<lparr>last_err := cudaErrorMemoryAllocation\<rparr>) 100 0 0 world1
     = Inr (True, 4096, 7,
            world1\<lparr>mgr := (mgr world1)\<lparr>dev_info := [\<lparr>free = 900, total = 1000, flush_count = 1\<rparr>]\<rparr>,
                   calls := calls world1 @ [Lock Shared, DeviceAllocate 0 100 cudaSuccess 100,
                                            GetLastError cudaErrorMemoryAllocation, MemGetInfo 0]\<rparr>)"
    by (simp add: scenario_defs op_defs)
  have i1: "initialized (mgr (world1\<lparr>mgr := (mgr world1)\<lparr>dev_info := [\<lparr>free = 900, total = 1000, flush_count = 0\<rparr>]\<rparr>\<rparr>))"
    and i2: "initialized (mgr world1)"
    by (simp_all add: world1_def)
  have v: "(0 :: int) > INVALID_DEVICE" by (simp add: INVALID_DEVICE_def)
  have s1: "size_allocated (env_carve 50 drv_900) > 0" and s2: "size_allocated (env_carve 100 drv_idle) > 0"
    and s3: "size_allocated ((env_carve 100 drv_900)\<lparr>last_err := cudaErrorMemoryAllocation\<rparr>) > 0"
    by (simp_all add: env_carve_def)
  show ?thesis
    using a b c try_allocate_accounting [OF a i1 s1 v] try_allocate_accounting [OF b i2 s2 v]
      try_allocate_accounting [OF c i2 s3 v]
    by simp
qed

subsection \<open>C4: the lock mode of a pinned-buffer resize\<close>




subsection \<open>C5: construction of the cache in init\<close>




subsection \<open>C6: GetInfo\<close>

text \<open>
  C6: a call of \<open>GetInfo\<close> with a cache handle present on the active device \<open>d\<close>
  returns; the reported total is \<open>dev_info_[d].total_\<close>, the reported free is
  \<open>dev_info_[d].free_\<close> plus the cached free bytes of \<open>d\<close> (a 64-bit sum) or the total
  if that sum is larger, so the reported free never exceeds the reported total.
\<close>

theorem GetInfo_reports:
  assumes "cub_allocator (mgr w) \<noteq> None" and "0 \<le> d"
    and "if with_update then dr d \<noteq> None else nat d < length (dev_info (mgr w))"
  shows "\<exists>f t w'. GetInfo (Some d) dr cf with_update w = Inr (f, t, w')
           \<and> nat d < length (dev_info (mgr w'))
           \<and> t = total (dev_info (mgr w') ! nat d)
           \<and> f = (if free (dev_info (mgr w') ! nat d) + cf d > t then t
                  else free (dev_info (mgr w') ! nat d) + cf d)
           \<and> f \<le> t
           \<and> (unat (free (dev_info (mgr w') ! nat d)) + unat (cf d) < 2 ^ 64 \<longrightarrow>
                unat f = min (unat t) (unat (free (dev_info (mgr w') ! nat d)) + unat (cf d)))
           \<and> (\<not> with_update \<longrightarrow> mgr w' = mgr w)"
proof -
  obtain w1 where
    u: "(if with_update then update_dev_info dr d (emit [GetDevice] w) else Inr (emit [GetDevice] w)) = Inr w1"
  proof (cases with_update)
    case True
    then obtain r where "dr d = Some r" using assms(3) by auto
    then show ?thesis using that True assms(2)
      by (simp add: update_dev_info_def Let_def)
  next
    case False
    then show ?thesis using that by simp
  qed
  have rng: "nat d < length (dev_info (mgr w1))"
  proof (cases with_update)
    case True
    then have "update_dev_info dr d (emit [GetDevice] w) = Inr w1" using u by simp
    then show ?thesis using update_dev_info_at by blast
  next
    case False
    then have "w1 = emit [GetDevice] w" using u by simp
    then show ?thesis using assms(3) False by (simp add: emit_def)
  qed
  have keep: "\<not> with_update \<longrightarrow> mgr w1 = mgr w"
    using u by (auto simp: emit_def)
  show ?thesis
    using GetInfo_read [OF assms(1,2) rng u, of cf] rng keep
      clamp_sum [of "total (dev_info (mgr w1) ! nat d)" "free (dev_info (mgr w1) ! nat d)" "cf d"]
    by simp
qed

theorem GetInfo_reports_witness:
  "GetInfo (Some 0) drv_idle cached_50 False world1 = Inr (1000, 1000, world1\<lparr>calls := calls world1 @ [GetDevice]\<rparr>)
   \<and> free (dev_info (mgr world1) ! 0) + cached_50 0 = 1050"
  using GetInfo_reports [of world1 0 False drv_idle cached_50]
  by (simp add: scenario_defs op_defs)

subsection \<open>C7: try_reserve with a non-increasing size\<close>

text \<open>
  C7: after a \<open>try_reserve(s1)\<close> that returned true, a \<open>try_reserve(s2)\<close> with
  \<open>s2 \<le> s1\<close> returns true and leaves the workspace (pointer, size, device, stream)
  and the whole process state, trace of collaborator calls included, unchanged:
  nothing is allocated or freed.
\<close>

theorem try_reserve_idem:
  assumes "try_reserve dc st fr env s1 dev (ws, w) = Inr (True, ws1, w1)" and "s2 \<le> s1"
  shows "try_reserve dc' st' fr' env' s2 dev' (ws1, w1) = Inr (True, ws1, w1)"
proof (cases "s1 > size_ws ws \<or> ptr_ws ws = 0")
  case True
  then have "size_ws ws1 = s1 \<and> ptr_ws ws1 \<noteq> 0"
    using assms(1)
    by (auto simp: try_reserve_def case_sum_Inr_iff Let_def split: if_splits)
  then show ?thesis using assms(2) by (auto simp: try_reserve_def)
next
  case False
  then have "ws1 = ws \<and> w1 = w" using assms(1) by (auto simp: try_reserve_def)
  then show ?thesis using False assms(2) by (auto simp: try_reserve_def)
qed

theorem try_reserve_idem_witness:
  "try_reserve mul_0_9F cudaSuccess (cudaSuccess, 0) (env_carve 128 drv_idle) 100 0 (workspace0, world1)
     = Inr (True, \<lparr>ptr_ws = 4096, size_ws = 100, device_ws = 0, pstream_ws = 7\<rparr>,
            world1\<lparr>mgr := (mgr world1)\<lparr>dev_info := [\<lparr>free = 872, total = 1000, flush_count = 0\<rparr>]\<rparr>,
                   calls := calls world1 @ [Lock Shared, DeviceAllocate 0 100 cudaSuccess 128,
                                            GetLastError cudaSuccess]\<rparr>)
   \<and> (50 :: size_t) \<le> 100
   \<and> try_reserve mul_0_9F cudaSuccess (cudaSuccess, 0) (env_carve 128 drv_idle) 50 0
        (\<lparr>ptr_ws = 4096, size_ws = 100, device_ws = 0, pstream_ws = 7\<rparr>,
         world1\<lparr>mgr := (mgr world1)\<lparr>dev_info := [\<lparr>free = 872, total = 1000, flush_count = 0\<rparr>]\<rparr>,
                calls := calls world1 @ [Lock Shared, DeviceAllocate 0 100 cudaSuccess 128,
                                         GetLastError cudaSuccess]\<rparr>)
     = Inr (True, \<lparr>ptr_ws = 4096, size_ws = 100, device_ws = 0, pstream_ws = 7\<rparr>,
            world1\<lparr>mgr := (mgr world1)\<lparr>dev_info := [\<lparr>free = 872, total = 1000, flush_count = 0\<rparr>]\<rparr>,
                   calls := calls world1 @ [Lock Shared, DeviceAllocate 0 100 cudaSuccess 128,
                                            GetLastError cudaSuccess]\<rparr>)"
proof -
  have first: "try_reserve mul_0_9F cudaSuccess (cudaSuccess, 0) (env_carve 128 drv_idle) 100 0 (workspace0, world1)
     = Inr (True, \<lparr>ptr_ws = 4096, size_ws = 100, device_ws = 0, pstream_ws = 7\<rparr>,
            world1\<lparr>mgr := (mgr world1)\<lparr>dev_info := [\<lparr>free = 872, total = 1000, flush_count = 0\<rparr>]\<rparr>,
                   calls := calls world1 @ [Lock Shared, DeviceAllocate 0 100 cudaSuccess 128,
                                            GetLastError cudaSuccess]\<rparr>)"
    by (simp add: scenario_defs op_defs)
  have le: "(50 :: size_t) \<le> 100" by simp
  show ?thesis
    using first le
      try_reserve_idem [OF first le, of mul_0_9F cudaSuccess "(cudaSuccess, 0)" "env_carve 128 drv_idle" 0]
    by simp
qed

subsection \<open>C8: growing a thread-local pinned buffer\<close>

text \<open>
  C8 on the code: \<open>thread_pinned_buffer(64, 0)\<close> followed by
  \<open>thread_pinned_buffer(128, 0)\<close> in the same thread. The second call allocates a host
  buffer of 128 bytes, but \<open>emplace\<close> does not replace the entry of group 0, so the new
  buffer is freed at once by its deleter, the recorded size becomes 128, and the
  pointer returned is the old one, backed by the 64-byte buffer.
\<close>

theorem thread_pinned_buffer_regrow:
  "thread_pinned_buffer (Some (4096, 8192)) 64 0 (thread_pool0, world0)
     = Inr (8192, \<lparr>host_buffers = [(0, 4096)], device_buffers = [(0, 8192)], sizes = [64]\<rparr>,
            world0\<lparr>calls := [HostAlloc 64 4096, HostGetDevicePointer 4096 8192]\<rparr>)
   \<and> thread_pinned_buffer (Some (12288, 16384)) 128 0
        (\<lparr>host_buffers = [(0, 4096)], device_buffers = [(0, 8192)], sizes = [64]\<rparr>,
         world0\<lparr>calls := [HostAlloc 64 4096, HostGetDevicePointer 4096 8192]\<rparr>)
     = Inr (8192, \<lparr>host_buffers = [(0, 4096)], device_buffers = [(0, 8192)], sizes = [128]\<rparr>,
            world0\<lparr>calls := [HostAlloc 64 4096, HostGetDevicePointer 4096 8192,
                              HostAlloc 128 12288, HostGetDevicePointer 12288 16384,
                              Lock Shared, FreeHost 12288]\<rparr>)"
  by (simp add: scenario_defs op_defs)

subsection \<open>C9: deallocate as a no-op\<close>

text \<open>
  C9: \<open>deallocate(pointer, device)\<close> is a benign no-op when the pointer is null, when the
  cache handle is absent, or when the driver reports that it is shutting down: it
  returns normally, the manager is unchanged, the lazy-scope flag is unchanged, and no
  call into the underlying cache (and no lock acquisition) is added to the trace.
\<close>

theorem deallocate_benign_noop:
  assumes "p = 0 \<or> cub_allocator (mgr w) = None \<or> st = cudaErrorCudartUnloading"
  shows "\<exists>w'. deallocate st fr p device w = Inr w'
           \<and> mgr w' = mgr w \<and> lazy_scope w' = lazy_scope w
           \<and> filter is_cache_call (calls w') = filter is_cache_call (calls w)
           \<and> (calls w' = calls w \<or> calls w' = calls w @ [GetDevice])
           \<and> ((p = 0 \<or> cub_allocator (mgr w) = None) \<longrightarrow> w' = w)"
  using assms by (auto simp: deallocate_def emit_def Let_def)

theorem deallocate_benign_noop_witness:
  "\<exists>w'. deallocate cudaErrorCudartUnloading (cudaSuccess, 16) 4096 0
          \<lparr>mgr = (Manager_ctor 1)\<lparr>cub_allocator := Some (CachingDeviceAllocator 2 6 22 (- 1) True False),
                                 initialized := True\<rparr>, calls = [], lazy_scope = False\<rparr> = Inr w'
        \<and> mgr w' = (Manager_ctor 1)\<lparr>cub_allocator := Some (CachingDeviceAllocator 2 6 22 (- 1) True False),
                                 initialized := True\<rparr>
        \<and> calls w' = [GetDevice]"
  using deallocate_benign_noop [of 4096
          "\<lparr>mgr = (Manager_ctor 1)\<lparr>cub_allocator := Some (CachingDeviceAllocator 2 6 22 (- 1) True False),
                                 initialized := True\<rparr>, calls = [], lazy_scope = False\<rparr>"
          cudaErrorCudartUnloading "(cudaSuccess, 16)" 0]
  by (simp add: deallocate_def emit_def)

subsection \<open>C10: what reset leaves alone\<close>

text \<open>
  C10: \<open>reset\<close> on an initialised manager clears \<open>initialized_\<close> and releases the
  cache handle (on any other manager it does nothing), and nothing else: the device info table, the thresholds, the three pinned-buffer tables and the
  debug flag are unchanged, no \<open>cudaFreeHost\<close> is called, and the destructor run after
  \<open>reset\<close> frees exactly the host buffers that were held before it.
\<close>

theorem reset_frame:
  "dev_info (mgr (reset w)) = dev_info (mgr w)
   \<and> update_thresholds (mgr (reset w)) = update_thresholds (mgr w)
   \<and> pinned_host_buffers (mgr (reset w)) = pinned_host_buffers (mgr w)
   \<and> pinned_device_buffers (mgr (reset w)) = pinned_device_buffers (mgr w)
   \<and> pinned_buffer_sizes (mgr (reset w)) = pinned_buffer_sizes (mgr w)
   \<and> debug (mgr (reset w)) = debug (mgr w)
   \<and> lazy_scope (reset w) = lazy_scope w
   \<and> \<not> initialized (mgr (reset w))
   \<and> cub_allocator (mgr (reset w)) = (if initialized (mgr w) then None else cub_allocator (mgr w))
   \<and> calls (reset w) = calls w @ (if initialized (mgr w) then [CubRelease] else [])
   \<and> calls (Manager_dtor (reset w))
       = calls (reset w) @ map FreeHost (concat (pinned_host_buffers (mgr w)))"
  by (simp add: reset_def emit_def Manager_dtor_def)

theorem reset_frame_witness:
  "pinned_host_buffers (mgr (reset (world1\<lparr>mgr := (mgr world1)\<lparr>pinned_host_buffers := [[4096]]\<rparr>\<rparr>))) = [[4096]]
   \<and> dev_info (mgr (reset (world1\<lparr>mgr := (mgr world1)\<lparr>pinned_host_buffers := [[4096]]\<rparr>\<rparr>)))
       = [\<lparr>free = 1000, total = 1000, flush_count = 0\<rparr>]
   \<and> cub_allocator (mgr (reset (world1\<lparr>mgr := (mgr world1)\<lparr>pinned_host_buffers := [[4096]]\<rparr>\<rparr>))) = None
   \<and> calls (Manager_dtor (reset (world1\<lparr>mgr := (mgr world1)\<lparr>pinned_host_buffers := [[4096]]\<rparr>\<rparr>)))
       = [CubNew False True, MemGetInfo 0, Lock Shared, CubRelease, FreeHost 4096]"
  using reset_frame [of "world1\<lparr>mgr := (mgr world1)\<lparr>pinned_host_buffers := [[4096]]\<rparr>\<rparr>"]
  by (simp add: world1_def)

end
